theory Spec2Isabelle
  imports Main
begin

section \<open>Python values, exceptions and formatting\<close>

text \<open>
  The values \<^verbatim>\<open>json.loads\<close> and \<^verbatim>\<open>response.json()\<close> hand to the program.
  A JSON object is an association list standing for the Python dict (keys distinct, in
  insertion order).  JSON floats are left out: no path of the tracker depends on them.
\<close>

datatype json =
    JNull
  | JBool bool
  | JNum int
  | JStr string
  | JArr "json list"
  | JObj "(string \<times> json) list"

text \<open>
  Exception classes the program meets.  \<open>Timeout\<close>, \<open>HTTPError\<close>,
  \<open>ConnectionError\<close> and \<open>InvalidJSONError\<close> are the classes of
  \<^verbatim>\<open>requests.exceptions\<close> below \<^verbatim>\<open>RequestException\<close>; every class here is a subclass
  of \<^verbatim>\<open>Exception\<close>, so an \<^verbatim>\<open>except Exception\<close> clause catches each value of
  type \<open>exn\<close>.  The string is what \<^verbatim>\<open>str(e)\<close> returns.
\<close>

datatype exn_class =
    ValueError
  | AttributeError
  | TypeError
  | KeyError
  | UnboundLocalError
  | Timeout
  | HTTPError
  | ConnectionError
  | InvalidJSONError
  | UnicodeEncodeError
  | OSError
  | PlainException

datatype exn = Exn (exn_cls: exn_class) (exn_str: string)

fun is_RequestException :: "exn_class \<Rightarrow> bool" where
  "is_RequestException Timeout = True"
| "is_RequestException HTTPError = True"
| "is_RequestException ConnectionError = True"
| "is_RequestException InvalidJSONError = True"
| "is_RequestException _ = False"

definition quote :: string where
  "quote = [CHR 0x27]"

definition newline :: string where
  "newline = [CHR 0x0A]"

text \<open>Python truthiness (\<^verbatim>\<open>not x\<close> is its negation).\<close>

fun truthy :: "json \<Rightarrow> bool" where
  "truthy JNull = False"
| "truthy (JBool b) = b"
| "truthy (JNum n) = (n \<noteq> 0)"
| "truthy (JStr s) = (s \<noteq> [])"
| "truthy (JArr xs) = (xs \<noteq> [])"
| "truthy (JObj kvs) = (kvs \<noteq> [])"

fun type_name :: "json \<Rightarrow> string" where
  "type_name JNull = ''NoneType''"
| "type_name (JBool _) = ''bool''"
| "type_name (JNum _) = ''int''"
| "type_name (JStr _) = ''str''"
| "type_name (JArr _) = ''list''"
| "type_name (JObj _) = ''dict''"

definition digit :: "nat \<Rightarrow> char" where
  "digit n = ''0123456789'' ! n"

fun digits :: "nat \<Rightarrow> string" where
  "digits n =
     (if n < 10 then [digit n]
      else digits (n div 10) @ [digit (n mod 10)])"

declare digits.simps [simp del]

definition show_int :: "int \<Rightarrow> string" where
  "show_int i = (if i < 0 then ''-'' @ digits (nat (- i)) else digits (nat i))"

fun join :: "string \<Rightarrow> string list \<Rightarrow> string" where
  "join sep [] = []"
| "join sep [x] = x"
| "join sep (x # y # ys) = x @ sep @ join sep (y # ys)"

text \<open>
  \<^verbatim>\<open>repr\<close> of a value; the quoting and escaping of a string literal belongs to the
  interpreter and is the parameter \<open>rs\<close>.
\<close>

fun py_repr :: "(string \<Rightarrow> string) \<Rightarrow> json \<Rightarrow> string" where
  "py_repr rs JNull = ''None''"
| "py_repr rs (JBool b) = (if b then ''True'' else ''False'')"
| "py_repr rs (JNum n) = show_int n"
| "py_repr rs (JStr s) = rs s"
| "py_repr rs (JArr xs) = ''['' @ join '', '' (map (py_repr rs) xs) @ '']''"
| "py_repr rs (JObj kvs) =
     ''{'' @ join '', '' (map (\<lambda>kv. rs (fst kv) @ '': '' @ py_repr rs (snd kv)) kvs) @ ''}''"

text \<open>\<^verbatim>\<open>str(x)\<close>, which is also what an f-string field \<^verbatim>\<open>{x}\<close> inserts.\<close>

fun py_str :: "(string \<Rightarrow> string) \<Rightarrow> json \<Rightarrow> string" where
  "py_str rs (JStr s) = s"
| "py_str rs v = py_repr rs v"

text \<open>Grouping of a digit string by thousands, as the format spec \<^verbatim>\<open>,\<close> does.\<close>

fun commas :: "string \<Rightarrow> string" where
  "commas ds =
     (if length ds \<le> 3 then ds
      else commas (take (length ds - 3) ds) @ '','' @ drop (length ds - 3) ds)"

declare commas.simps [simp del]

text \<open>
  \<^verbatim>\<open>f"{downloads:,}"\<close>: integers (and booleans, which are integers) are grouped;
  every other type rejects the format spec.
\<close>

fun format_comma :: "json \<Rightarrow> exn + string" where
  "format_comma (JNum n) =
     Inr (if n < 0 then ''-'' @ commas (digits (nat (- n))) else commas (digits (nat n)))"
| "format_comma (JBool b) = Inr (if b then ''1'' else ''0'')"
| "format_comma (JStr s) =
     Inl (Exn ValueError (''Cannot specify '' @ quote @ '','' @ quote @ '' with '' @ quote @ ''s'' @ quote @ ''.''))"
| "format_comma v =
     Inl (Exn TypeError (''unsupported format string passed to '' @ type_name v @ ''.__format__''))"

text \<open>\<^verbatim>\<open>project.get(key)\<close>: only a dict has the method; a missing key gives \<^verbatim>\<open>None\<close>.\<close>

fun py_get :: "json \<Rightarrow> string \<Rightarrow> exn + json" where
  "py_get (JObj kvs) k = Inr (case map_of kvs k of None \<Rightarrow> JNull | Some v \<Rightarrow> v)"
| "py_get v k =
     Inl (Exn AttributeError
       (quote @ type_name v @ quote @ '' object has no attribute '' @ quote @ ''get'' @ quote))"

text \<open>\<^verbatim>\<open>data['pull_count']\<close> on whatever the response body parsed to.\<close>

fun py_subscript :: "json \<Rightarrow> string \<Rightarrow> exn + json" where
  "py_subscript (JObj kvs) k =
     (case map_of kvs k of
        None \<Rightarrow> Inl (Exn KeyError (quote @ k @ quote))
      | Some v \<Rightarrow> Inr v)"
| "py_subscript (JArr xs) k =
     Inl (Exn TypeError ''list indices must be integers or slices, not str'')"
| "py_subscript (JStr s) k =
     Inl (Exn TypeError (''string indices must be integers, not '' @ quote @ ''str'' @ quote))"
| "py_subscript v k =
     Inl (Exn TypeError (quote @ type_name v @ quote @ '' object is not subscriptable''))"

text \<open>
  \<^verbatim>\<open>for project in self.projects\<close>: a list yields its elements, a dict its keys, a
  string its characters; a number or \<^verbatim>\<open>True\<close> is not iterable.
\<close>

fun py_iter :: "json \<Rightarrow> exn + json list" where
  "py_iter (JArr xs) = Inr xs"
| "py_iter (JObj kvs) = Inr (map (\<lambda>kv. JStr (fst kv)) kvs)"
| "py_iter (JStr s) = Inr (map (\<lambda>c. JStr [c]) s)"
| "py_iter v = Inl (Exn TypeError (quote @ type_name v @ quote @ '' object is not iterable''))"

section \<open>The world outside the program\<close>

record date =
  year :: nat
  month :: nat
  day :: nat

definition pad2 :: "nat \<Rightarrow> string" where
  "pad2 n = (if n < 10 then ''0'' @ digits n else digits n)"

text \<open>\<^verbatim>\<open>strftime("%Y-%m-%d")\<close>; the year is printed as it is (four digits from 1000 on).\<close>

definition strftime_ymd :: "date \<Rightarrow> string" where
  "strftime_ymd d = digits (year d) @ ''-'' @ pad2 (month d) @ ''-'' @ pad2 (day d)"

text \<open>
  What \<^verbatim>\<open>requests.get(url, timeout=10)\<close> comes back with: an exception raised by the
  transport (a timeout among them), or a response with its status code, its reason phrase
  and what \<^verbatim>\<open>response.json()\<close> does on its body.
\<close>

datatype http_outcome =
    Transport exn
  | Response nat string "exn + json"

text \<open>
  The collaborators of the program.  The registry and the version-control tool may
  answer differently each time, so both take the number of calls made before.
  \<open>subprocess_run\<close> gives the exit status of the child, or the exception raised when the
  child could not be started.  \<open>stdout_write\<close> is the exception standard output raises
  when it is given a text it cannot encode (\<open>None\<close> when the text is written), and
  \<open>open_log_file\<close> the exception raised when \<^verbatim>\<open>docker_downloads.log\<close> cannot be
  opened.
\<close>

record world =
  environ :: "string \<Rightarrow> string option"
  json_loads :: "string \<Rightarrow> string + json"
  now_at_run :: date
  now_at_commit :: date
  http_get :: "nat \<Rightarrow> string \<Rightarrow> http_outcome"
  subprocess_run :: "nat \<Rightarrow> string list \<Rightarrow> exn + int"
  repr_str :: "string \<Rightarrow> string"
  stdout_write :: "string \<Rightarrow> exn option"
  open_log_file :: "exn option"

datatype level = INFO | ERROR

text \<open>
  Everything the program can change: the ledger file (\<open>None\<close> while it does not exist;
  otherwise the rows written with \<^verbatim>\<open>writerow\<close>, each a list of cells), the directory
  \<^verbatim>\<open>stats\<close>, the calls made to the logger, standard output, the URLs requested and
  the commands started.  Operations on the ledger file and the directory are taken to
  succeed; a logging call never raises (the logging module keeps the errors of its handlers
  to itself).
\<close>

record state =
  ledger :: "json list list option"
  stats_dir :: bool
  logged :: "(level \<times> string) list"
  printed :: "string list"
  requested :: "string list"
  spawned :: "string list list"

definition logging_info :: "string \<Rightarrow> state \<Rightarrow> state" where
  "logging_info m s = s\<lparr>logged := logged s @ [(INFO, m)]\<rparr>"

definition logging_error :: "string \<Rightarrow> state \<Rightarrow> state" where
  "logging_error m s = s\<lparr>logged := logged s @ [(ERROR, m)]\<rparr>"

text \<open>\<^verbatim>\<open>print(m)\<close>: the text is written, or the stream raises and nothing is written.\<close>

definition print :: "world \<Rightarrow> string \<Rightarrow> state \<Rightarrow> exn + state" where
  "print w m s =
     (case stdout_write w m of
        Some e \<Rightarrow> Inl e
      | None \<Rightarrow> Inr (s\<lparr>printed := printed s @ [m]\<rparr>))"

definition getenv_truthy :: "world \<Rightarrow> string \<Rightarrow> bool" where
  "getenv_truthy w k = (case environ w k of None \<Rightarrow> False | Some v \<Rightarrow> v \<noteq> [])"

section \<open>The tracker\<close>

subsection \<open>Loading the configuration\<close>

definition load_projects :: "world \<Rightarrow> exn + json" where
  "load_projects w =
     (case environ w ''DOCKER_PROJECTS'' of
        None \<Rightarrow> Inl (Exn ValueError ''DOCKER_PROJECTS environment variable is not set'')
      | Some projects_json \<Rightarrow>
          if projects_json = [] then
            Inl (Exn ValueError ''DOCKER_PROJECTS environment variable is not set'')
          else
            (case json_loads w projects_json of
               Inl e \<Rightarrow> Inl (Exn ValueError (''Invalid JSON in DOCKER_PROJECTS: '' @ e))
             | Inr projects \<Rightarrow>
                 if \<not> truthy projects then
                   Inl (Exn ValueError ''No projects defined in DOCKER_PROJECTS'')
                 else Inr projects))"

text \<open>\<^verbatim>\<open>__init__\<close>: the projects are loaded first; only then is the directory made.\<close>

definition init :: "world \<Rightarrow> state \<Rightarrow> state \<times> (exn + json)" where
  "init w s =
     (case load_projects w of
        Inl e \<Rightarrow> (s, Inl e)
      | Inr projects \<Rightarrow> (s\<lparr>stats_dir := True\<rparr>, Inr projects))"

subsection \<open>Fetching one counter\<close>

definition hub_url :: "string \<Rightarrow> string \<Rightarrow> string" where
  "hub_url username repository =
     ''https://hub.docker.com/v2/repositories/'' @ username @ ''/'' @ repository @ ''/''"

text \<open>\<^verbatim>\<open>raise_for_status\<close> of the HTTP library: only 4xx and 5xx raise.\<close>

definition raise_for_status :: "nat \<Rightarrow> string \<Rightarrow> string \<Rightarrow> exn option" where
  "raise_for_status status reason url =
     (if 400 \<le> status \<and> status < 500 then
        Some (Exn HTTPError (digits status @ '' Client Error: '' @ reason @ '' for url: '' @ url))
      else if 500 \<le> status \<and> status < 600 then
        Some (Exn HTTPError (digits status @ '' Server Error: '' @ reason @ '' for url: '' @ url))
      else None)"

text \<open>The body of the \<^verbatim>\<open>try\<close> in \<^verbatim>\<open>get_docker_downloads\<close>, given the outcome of the request.\<close>

definition fetch_value :: "string \<Rightarrow> http_outcome \<Rightarrow> exn + json" where
  "fetch_value url outcome =
     (case outcome of
        Transport e \<Rightarrow> Inl e
      | Response status reason body \<Rightarrow>
          (case raise_for_status status reason url of
             Some e \<Rightarrow> Inl e
           | None \<Rightarrow>
               (case body of
                  Inl e \<Rightarrow> Inl e
                | Inr data \<Rightarrow> py_subscript data ''pull_count'')))"

text \<open>
  One request, no loop around it.  The handler is
  \<^verbatim>\<open>except requests.exceptions.RequestException\<close>: it logs and re-raises; any other
  exception leaves the function without passing through it.
\<close>

definition get_docker_downloads ::
  "world \<Rightarrow> state \<Rightarrow> string \<Rightarrow> string \<Rightarrow> state \<times> (exn + json)" where
  "get_docker_downloads w s username repository =
     (let url = hub_url username repository;
          outcome = http_get w (length (requested s)) url;
          s1 = s\<lparr>requested := requested s @ [url]\<rparr>
      in case fetch_value url outcome of
           Inr count \<Rightarrow> (s1, Inr count)
         | Inl e \<Rightarrow>
             if is_RequestException (exn_cls e) then
               (logging_error (''Failed to fetch Docker Hub data for '' @ username @ ''/''
                               @ repository @ '': '' @ exn_str e) s1, Inl e)
             else (s1, Inl e))"

subsection \<open>Writing the ledger\<close>

record download =
  dl_username :: json
  dl_repository :: json
  dl_downloads :: json

definition header :: "json list" where
  "header = [JStr ''Date'', JStr ''Repository'', JStr ''Downloads'']"

definition ledger_row :: "world \<Rightarrow> string \<Rightarrow> download \<Rightarrow> json list" where
  "ledger_row w date d =
     [JStr date,
      JStr (py_str (repr_str w) (dl_username d) @ ''/'' @ py_str (repr_str w) (dl_repository d)),
      dl_downloads d]"

definition csv_file :: string where
  "csv_file = ''stats/docker_downloads.csv''"

definition store_data :: "world \<Rightarrow> state \<Rightarrow> string \<Rightarrow> download list \<Rightarrow> state \<times> string" where
  "store_data w s date downloads_data =
     (let s1 = (case ledger s of
                  None \<Rightarrow> logging_info ''Created new CSV file for tracking downloads''
                            (s\<lparr>ledger := Some [header]\<rparr>)
                | Some _ \<Rightarrow> s);
          rows = map (ledger_row w date) downloads_data;
          s2 = s1\<lparr>ledger := (case ledger s1 of
                                 None \<Rightarrow> Some rows
                               | Some old \<Rightarrow> Some (old @ rows))\<rparr>
      in (logging_info (''Stored download counts for '' @ digits (length downloads_data)
                        @ '' repositories'') s2, csv_file))"

subsection \<open>Publishing\<close>

definition git_commands :: "world \<Rightarrow> string \<Rightarrow> string list list" where
  "git_commands w changed_file =
     [[''git'', ''config'', ''user.name'', ''GitHub Actions Bot''],
      [''git'', ''config'', ''user.email'', ''actions@github.com''],
      [''git'', ''add'', changed_file],
      [''git'', ''commit'', ''-m'', ''Update download stats for '' @ strftime_ymd (now_at_commit w)],
      [''git'', ''push'']]"

text \<open>
  The calls \<^verbatim>\<open>subprocess.run([...])\<close> one after the other.  The call raises only when
  the child cannot be started; the exit status it returns is dropped, as in the source.
\<close>

fun run_commands :: "world \<Rightarrow> state \<Rightarrow> string list list \<Rightarrow> state \<times> exn option" where
  "run_commands w s [] = (s, None)"
| "run_commands w s (cmd # rest) =
     (case subprocess_run w (length (spawned s)) cmd of
        Inl e \<Rightarrow> (s\<lparr>spawned := spawned s @ [cmd]\<rparr>, Some e)
      | Inr returncode \<Rightarrow> run_commands w (s\<lparr>spawned := spawned s @ [cmd]\<rparr>) rest)"

definition commit_and_push_changes :: "world \<Rightarrow> state \<Rightarrow> string \<Rightarrow> state \<times> (exn + unit)" where
  "commit_and_push_changes w s changed_file =
     (case run_commands w s (git_commands w changed_file) of
        (s1, None) \<Rightarrow>
          (logging_info ''Successfully committed and pushed changes to GitHub'' s1, Inr ())
      | (s1, Some e) \<Rightarrow>
          (logging_error (''Failed to commit and push changes: '' @ exn_str e) s1, Inl e))"

subsection \<open>The run\<close>

text \<open>
  The local variables of \<^verbatim>\<open>run\<close> that outlive one iteration.  \<open>username\<close> and
  \<open>repository\<close> are \<open>None\<close> while the name is unbound; \<open>Some JNull\<close> is Python's
  \<^verbatim>\<open>None\<close>.
\<close>

record frame =
  username :: "json option"
  repository :: "json option"
  downloads_data :: "download list"
  errors :: "string list"

text \<open>The \<^verbatim>\<open>try\<close> block of one iteration; \<open>Some e\<close> is the exception it raised.\<close>

definition try_project :: "world \<Rightarrow> state \<Rightarrow> frame \<Rightarrow> json \<Rightarrow> (state \<times> frame) \<times> exn option" where
  "try_project w s f project =
     (case py_get project ''username'' of
        Inl e \<Rightarrow> ((s, f), Some e)
      | Inr u \<Rightarrow>
          (case py_get project ''repository'' of
             Inl e \<Rightarrow> ((s, f\<lparr>username := Some u\<rparr>), Some e)
           | Inr r \<Rightarrow>
               (let f1 = f\<lparr>username := Some u, repository := Some r\<rparr>;
                    un = py_str (repr_str w) u;
                    rn = py_str (repr_str w) r
                in if \<not> truthy u \<or> \<not> truthy r then
                     ((s, f1), Some (Exn ValueError
                        (''Invalid project configuration: '' @ py_str (repr_str w) project)))
                   else
                     (case get_docker_downloads w
                             (logging_info (''Processing '' @ un @ ''/'' @ rn) s) un rn of
                        (s2, Inl e) \<Rightarrow> ((s2, f1), Some e)
                      | (s2, Inr downloads) \<Rightarrow>
                          (let f2 = f1\<lparr>downloads_data := downloads_data f1 @
                                      [\<lparr>dl_username = u, dl_repository = r,
                                        dl_downloads = downloads\<rparr>]\<rparr>
                           in case print w (newline @ ''Docker Hub Statistics for '' @ un
                                            @ ''/'' @ rn) s2 of
                                Inl e \<Rightarrow> ((s2, f2), Some e)
                              | Inr s3 \<Rightarrow>
                                  (case format_comma downloads of
                                     Inl e \<Rightarrow> ((s3, f2), Some e)
                                   | Inr txt \<Rightarrow>
                                       (case print w (''Current Downloads: '' @ txt) s3 of
                                          Inl e \<Rightarrow> ((s3, f2), Some e)
                                        | Inr s4 \<Rightarrow> ((s4, f2), None))))))))"

definition unbound_local :: "string \<Rightarrow> exn" where
  "unbound_local name =
     Exn UnboundLocalError (''cannot access local variable '' @ quote @ name @ quote
                            @ '' where it is not associated with a value'')"

text \<open>
  The \<^verbatim>\<open>except Exception as e\<close> block of the iteration.  It reads \<open>username\<close> and
  \<open>repository\<close>, which are bound inside the \<^verbatim>\<open>try\<close>; reading an unbound name
  raises inside the handler, and that exception leaves the loop (\<open>Inl\<close>).
\<close>

definition except_project :: "world \<Rightarrow> state \<Rightarrow> frame \<Rightarrow> exn \<Rightarrow> exn + (state \<times> frame)" where
  "except_project w s f e =
     (case username f of
        None \<Rightarrow> Inl (unbound_local ''username'')
      | Some u \<Rightarrow>
          (case repository f of
             None \<Rightarrow> Inl (unbound_local ''repository'')
           | Some r \<Rightarrow>
               (let error_msg = ''Error processing '' @ py_str (repr_str w) u @ ''/''
                                @ py_str (repr_str w) r @ '': '' @ exn_str e
                in Inr (logging_error error_msg s, f\<lparr>errors := errors f @ [error_msg]\<rparr>))))"

fun for_projects :: "world \<Rightarrow> state \<Rightarrow> frame \<Rightarrow> json list \<Rightarrow> state \<times> (exn + frame)" where
  "for_projects w s f [] = (s, Inr f)"
| "for_projects w s f (project # rest) =
     (case try_project w s f project of
        ((s1, f1), None) \<Rightarrow> for_projects w s1 f1 rest
      | ((s1, f1), Some e) \<Rightarrow>
          (case except_project w s1 f1 e of
             Inl e' \<Rightarrow> (s1, Inl e')
           | Inr (s2, f2) \<Rightarrow> for_projects w s2 f2 rest))"

text \<open>What follows the loop, up to the last \<^verbatim>\<open>if errors\<close>: the state and the error list.\<close>

definition store_and_publish :: "world \<Rightarrow> state \<Rightarrow> string \<Rightarrow> frame \<Rightarrow> state \<times> string list" where
  "store_and_publish w s date f =
     (if downloads_data f \<noteq> [] then
        (case store_data w s date (downloads_data f) of
           (s1, path) \<Rightarrow>
             if getenv_truthy w ''GITHUB_ACTIONS'' then
               (case commit_and_push_changes w s1 path of
                  (s2, Inl e) \<Rightarrow> (s2, errors f @ [''Failed to commit changes: '' @ exn_str e])
                | (s2, Inr _) \<Rightarrow> (s2, errors f))
             else (s1, errors f))
      else (s, errors f))"

definition frame0 :: frame where
  "frame0 = \<lparr>username = None, repository = None, downloads_data = [], errors = []\<rparr>"

definition run :: "world \<Rightarrow> state \<Rightarrow> json \<Rightarrow> state \<times> (exn + unit)" where
  "run w s projects =
     (case py_iter projects of
        Inl e \<Rightarrow> (s, Inl e)
      | Inr ps \<Rightarrow>
          (case for_projects w s frame0 ps of
             (s1, Inl e) \<Rightarrow> (s1, Inl e)
           | (s1, Inr f) \<Rightarrow>
               (case store_and_publish w s1 (strftime_ymd (now_at_run w)) f of
                  (s2, errs) \<Rightarrow>
                    if errs \<noteq> [] then (s2, Inl (Exn PlainException (join newline errs)))
                    else (logging_info ''Script completed successfully'' s2, Inr ()))))"

subsection \<open>The entry point\<close>

text \<open>How the process ends: with an exit status, or with the traceback of an exception
  nobody caught (and exit status 1).\<close>

datatype process_end = Exit nat | Traceback exn

fun exit_status :: "process_end \<Rightarrow> nat" where
  "exit_status (Exit n) = n"
| "exit_status (Traceback e) = 1"

text \<open>
  The handler of the script, \<^verbatim>\<open>except Exception as e\<close>: a logging call, then a
  \<^verbatim>\<open>print\<close>.  \<open>Some e'\<close> is the exception the \<^verbatim>\<open>print\<close> raised; nothing catches it.
\<close>

definition application_error :: "world \<Rightarrow> exn \<Rightarrow> state \<Rightarrow> state \<times> exn option" where
  "application_error w e s =
     (let s1 = logging_error (''Application error: '' @ exn_str e) s
      in case print w (newline @ ''Error: '' @ exn_str e) s1 of
           Inl e' \<Rightarrow> (s1, Some e')
         | Inr s2 \<Rightarrow> (s2, None))"

text \<open>
  The \<^verbatim>\<open>try\<close> of the script: build the tracker, run it.  Its handler is
  \<^verbatim>\<open>except Exception\<close>, which every \<open>exn\<close> matches.
\<close>

definition main_try :: "world \<Rightarrow> state \<Rightarrow> state \<times> (exn + unit)" where
  "main_try w s =
     (case init w s of
        (s1, Inl e) \<Rightarrow> (s1, Inl e)
      | (s1, Inr projects) \<Rightarrow> run w s1 projects)"

text \<open>The block under \<^verbatim>\<open>if __name__ == "__main__"\<close>.\<close>

definition main :: "world \<Rightarrow> state \<Rightarrow> state \<times> process_end" where
  "main w s =
     (case main_try w s of
        (s1, Inl e) \<Rightarrow>
          (case application_error w e s1 of
             (s2, Some e') \<Rightarrow> (s2, Traceback e')
           | (s2, None) \<Rightarrow> (s2, Exit 0))
      | (s1, Inr _) \<Rightarrow> (s1, Exit 0))"

text \<open>
  The script from its first line: \<^verbatim>\<open>logging.basicConfig\<close> builds the file handler
  at module level, outside every \<^verbatim>\<open>try\<close>; then the block above runs.
\<close>

definition script :: "world \<Rightarrow> state \<Rightarrow> state \<times> process_end" where
  "script w s =
     (case open_log_file w of
        Some e \<Rightarrow> (s, Traceback e)
      | None \<Rightarrow> main w s)"

section \<open>Sample worlds\<close>

definition state0 :: state where
  "state0 = \<lparr>ledger = None, stats_dir = False, logged = [], printed = [],
             requested = [], spawned = []\<rparr>"

definition acme_projects :: json where
  "acme_projects = JArr [JObj [(''username'', JStr ''acme''), (''repository'', JStr ''app'')]]"

definition acme_text :: string where
  \<open>acme_text = ''[{"username":"acme","repository":"app"}]''\<close>

text \<open>The example of the specification: one repository, the registry answers 42.\<close>

definition acme_world :: world where
  "acme_world = \<lparr>
     environ = (\<lambda>k. if k = ''DOCKER_PROJECTS'' then Some acme_text else None),
     json_loads = (\<lambda>t. if t = acme_text then Inr acme_projects else Inl ''Expecting value''),
     now_at_run = \<lparr>year = 2024, month = 1, day = 1\<rparr>,
     now_at_commit = \<lparr>year = 2024, month = 1, day = 1\<rparr>,
     http_get = (\<lambda>k url. Response 200 ''OK'' (Inr (JObj [(''pull_count'', JNum 42)]))),
     subprocess_run = (\<lambda>k cmd. Inr 0),
     repr_str = (\<lambda>t. quote @ t @ quote),
     stdout_write = (\<lambda>m. None),
     open_log_file = None\<rparr>"

definition no_config_world :: world where
  "no_config_world = acme_world\<lparr>environ := (\<lambda>k. None)\<rparr>"

text \<open>Standard output accepts no text at all; the log file cannot be opened.\<close>

definition mute_world :: world where
  "mute_world =
     no_config_world\<lparr>stdout_write := (\<lambda>m. Some (Exn UnicodeEncodeError ''ordinal not in range(128)''))\<rparr>"

definition no_log_world :: world where
  "no_log_world =
     acme_world\<lparr>open_log_file := Some (Exn OSError ''Permission denied: docker_downloads.log'')\<rparr>"

text \<open>
  A user name that is a lone surrogate, here as the three bytes a lenient UTF-8 encoder
  gives it.  The URL cannot be encoded, and standard output rejects every text with the
  surrogate in it.
\<close>

definition surrogate_name :: string where
  "surrogate_name = [CHR 0xED, CHR 0xA0, CHR 0x80]"

definition surrogate_text :: string where
  \<open>surrogate_text = ''[{"username":"'' @ [CHR 0x5C] @ ''ud800","repository":"app"}]''\<close>

definition surrogate_world :: world where
  "surrogate_world =
     acme_world\<lparr>environ := (\<lambda>k. if k = ''DOCKER_PROJECTS'' then Some surrogate_text else None),
                json_loads := (\<lambda>t. if t = surrogate_text
                                     then Inr (JArr [JObj [(''username'', JStr surrogate_name),
                                                           (''repository'', JStr ''app'')]])
                                     else Inl ''Expecting value''),
                http_get := (\<lambda>k url. Transport (Exn UnicodeEncodeError ''surrogates not allowed'')),
                stdout_write := (\<lambda>m. if CHR 0xED \<in> set m
                                       then Some (Exn UnicodeEncodeError ''surrogates not allowed'')
                                       else None)\<rparr>"

text \<open>A ledger that already holds the header and one row of an earlier run.\<close>

definition state1 :: state where
  "state1 = state0\<lparr>ledger := Some [[JStr ''Date'', JStr ''Repository'', JStr ''Downloads''],
                                    [JStr ''2023-12-31'', JStr ''acme/app'', JNum 40]]\<rparr>"

definition acme_download :: download where
  "acme_download = \<lparr>dl_username = JStr ''acme'', dl_repository = JStr ''app'', dl_downloads = JNum 42\<rparr>"

text \<open>The registry answers, but the body has no \<^verbatim>\<open>pull_count\<close>.\<close>

definition no_count_world :: world where
  "no_count_world =
     acme_world\<lparr>http_get := (\<lambda>k url. Response 200 ''OK'' (Inr (JObj [(''name'', JStr ''app'')])))\<rparr>"

definition timeout_world :: world where
  "timeout_world = acme_world\<lparr>http_get := (\<lambda>k url. Transport (Exn Timeout ''Read timed out.''))\<rparr>"

definition not_found_world :: world where
  "not_found_world =
     acme_world\<lparr>http_get := (\<lambda>k url. Response 404 ''Not Found'' (Inr (JObj [])))\<rparr>"

text \<open>Every git command runs; \<^verbatim>\<open>git push\<close> ends with exit status 1.\<close>

definition push_rejected_world :: world where
  "push_rejected_world =
     acme_world\<lparr>subprocess_run := (\<lambda>k cmd. if cmd = [''git'', ''push''] then Inr 1 else Inr 0)\<rparr>"

section \<open>Sequences of ledger writes\<close>

text \<open>Successive \<^verbatim>\<open>store_data\<close> calls (one per run), each with its date and its records.\<close>

fun store_data_calls :: "world \<Rightarrow> state \<Rightarrow> (string \<times> download list) list \<Rightarrow> state" where
  "store_data_calls w s [] = s"
| "store_data_calls w s (c # cs) = store_data_calls w (fst (store_data w s (fst c) (snd c))) cs"

section \<open>Observing a run\<close>

text \<open>
  Whether the request numbered \<open>k\<close>, sent to \<open>url\<close>, yields a counter; how many of the
  requests \<open>urls\<close>, numbered from \<open>k\<close>, do; and the requests issued between two states.
\<close>

definition fetch_ok :: "world \<Rightarrow> nat \<Rightarrow> string \<Rightarrow> bool" where
  "fetch_ok w k url = (case fetch_value url (http_get w k url) of Inr _ \<Rightarrow> True | Inl _ \<Rightarrow> False)"

fun successes :: "world \<Rightarrow> nat \<Rightarrow> string list \<Rightarrow> nat" where
  "successes w k [] = 0"
| "successes w k (url # urls) = (if fetch_ok w k url then 1 else 0) + successes w (Suc k) urls"

definition new_requests :: "state \<Rightarrow> state \<Rightarrow> string list" where
  "new_requests s s' = drop (length (requested s)) (requested s')"

text \<open>Both names read by the handler of the loop are bound.\<close>

definition bound :: "frame \<Rightarrow> bool" where
  "bound f = (username f \<noteq> None \<and> repository f \<noteq> None)"

text \<open>The automation flag is set.\<close>

definition ci_world :: world where
  "ci_world =
     acme_world\<lparr>environ := (\<lambda>k. if k = ''DOCKER_PROJECTS'' then Some acme_text
                                 else if k = ''GITHUB_ACTIONS'' then Some ''true'' else None)\<rparr>"

definition acme_entry :: json where
  "acme_entry = JObj [(''username'', JStr ''acme''), (''repository'', JStr ''app'')]"

text \<open>The flag is set and every git command runs; \<^verbatim>\<open>git push\<close> ends with exit status 1.\<close>

definition ci_push_rejected_world :: world where
  "ci_push_rejected_world =
     ci_world\<lparr>subprocess_run := (\<lambda>k cmd. if cmd = [''git'', ''push''] then Inr 1 else Inr 0)\<rparr>"

text \<open>The flag is set, but no \<^verbatim>\<open>git\<close> can be started.\<close>

definition no_git_world :: world where
  "no_git_world =
     ci_world\<lparr>subprocess_run := (\<lambda>k cmd. Inl (Exn OSError ''No such file or directory: git''))\<rparr>"

text \<open>A configuration whose first entry is a string, not an object.\<close>

definition bad_first_text :: string where
  \<open>bad_first_text = ''["oops", {"username":"acme","repository":"app"}]''\<close>

definition bad_first_world :: world where
  "bad_first_world =
     acme_world\<lparr>environ := (\<lambda>k. if k = ''DOCKER_PROJECTS'' then Some bad_first_text else None),
                json_loads := (\<lambda>t. if t = bad_first_text then Inr (JArr [JStr ''oops'', acme_entry])
                                     else Inl ''Expecting value'')\<rparr>"

text \<open>The same two entries in the other order.\<close>

definition bad_second_text :: string where
  \<open>bad_second_text = ''[{"username":"acme","repository":"app"}, "oops"]''\<close>

definition bad_second_world :: world where
  "bad_second_world =
     acme_world\<lparr>environ := (\<lambda>k. if k = ''DOCKER_PROJECTS'' then Some bad_second_text else None),
                json_loads := (\<lambda>t. if t = bad_second_text then Inr (JArr [acme_entry, JStr ''oops''])
                                     else Inl ''Expecting value'')\<rparr>"

text \<open>\<^verbatim>\<open>GITHUB_ACTIONS\<close> is in the environment, with the empty string as its value.\<close>

definition empty_flag_world :: world where
  "empty_flag_world =
     acme_world\<lparr>environ := (\<lambda>k. if k = ''DOCKER_PROJECTS'' then Some acme_text
                                 else if k = ''GITHUB_ACTIONS'' then Some [] else None)\<rparr>"

text \<open>
  Two repositories, on 9 March 2024; the registry answers 42 to the first request and 7
  afterwards.
\<close>

definition two_text :: string where
  \<open>two_text = ''[{"username":"acme","repository":"app"}, {"username":"acme","repository":"db"}]''\<close>

definition two_entries :: "json list" where
  "two_entries = [acme_entry, JObj [(''username'', JStr ''acme''), (''repository'', JStr ''db'')]]"

definition two_world :: world where
  "two_world =
     acme_world\<lparr>environ := (\<lambda>k. if k = ''DOCKER_PROJECTS'' then Some two_text else None),
                json_loads := (\<lambda>t. if t = two_text then Inr (JArr two_entries)
                                     else Inl ''Expecting value''),
                now_at_run := \<lparr>year = 2024, month = 3, day = 9\<rparr>,
                http_get := (\<lambda>k url. Response 200 ''OK''
                               (Inr (JObj [(''pull_count'', JNum (if k = 0 then 42 else 7))])))\<rparr>"

section \<open>Valid configurations\<close>

text \<open>
  An entry of a valid configuration: an object whose \<^verbatim>\<open>username\<close> and
  \<^verbatim>\<open>repository\<close> are non-empty strings; the result is the pair of the two.
\<close>

fun entry_name :: "json \<Rightarrow> (string \<times> string) option" where
  "entry_name (JObj kvs) =
     (case map_of kvs ''username'' of
        Some (JStr u) \<Rightarrow>
          (case map_of kvs ''repository'' of
             Some (JStr r) \<Rightarrow> if u \<noteq> [] \<and> r \<noteq> [] then Some (u, r) else None
           | _ \<Rightarrow> None)
      | _ \<Rightarrow> None)"
| "entry_name _ = None"

text \<open>The record and the ledger row a repository and its counter are expected to give.\<close>

definition record_of :: "(string \<times> string) \<times> json \<Rightarrow> download" where
  "record_of nc = \<lparr>dl_username = JStr (fst (fst nc)), dl_repository = JStr (snd (fst nc)),
                   dl_downloads = snd nc\<rparr>"

definition expected_row :: "string \<Rightarrow> (string \<times> string) \<times> json \<Rightarrow> json list" where
  "expected_row date nc = [JStr date, JStr (fst (fst nc) @ ''/'' @ snd (fst nc)), snd nc]"

section \<open>What each operation leaves alone\<close>

lemmas effect_defs = logging_info_def logging_error_def

lemma print_Inr:
  "print w m s = Inr s' \<Longrightarrow> s' = s\<lparr>printed := printed s @ [m]\<rparr>"
  by (simp add: print_def split: option.splits)

lemma print_frame:
  "print w m s = Inr s' \<Longrightarrow>
     ledger s' = ledger s \<and> spawned s' = spawned s \<and> stats_dir s' = stats_dir s \<and>
     requested s' = requested s \<and> logged s' = logged s"
  by (auto dest: print_Inr)

lemma application_error_frame:
  "application_error w e s = (s', r) \<Longrightarrow>
     ledger s' = ledger s \<and> spawned s' = spawned s \<and> stats_dir s' = stats_dir s \<and>
     requested s' = requested s \<and>
     logged s' = logged s @ [(ERROR, ''Application error: '' @ exn_str e)]"
  by (auto simp: application_error_def Let_def effect_defs split: sum.splits dest!: print_frame)

lemma get_docker_downloads_frame:
  "get_docker_downloads w s u r = (s', res) \<Longrightarrow>
     ledger s' = ledger s \<and> spawned s' = spawned s \<and> stats_dir s' = stats_dir s \<and>
     printed s' = printed s \<and> requested s' = requested s @ [hub_url u r]"
  by (auto simp: get_docker_downloads_def Let_def effect_defs split: sum.splits if_splits)

lemma try_project_frame:
  "try_project w s f p = ((s', f'), r) \<Longrightarrow>
     ledger s' = ledger s \<and> spawned s' = spawned s \<and> stats_dir s' = stats_dir s"
  by (auto simp: try_project_def Let_def effect_defs
           split: sum.splits if_splits prod.splits
           dest!: get_docker_downloads_frame print_frame)

text \<open>The state in which the entry block ends.\<close>

lemma main_state:
  "(\<exists>r. main_try w s = (fst (main w s), Inr r))
   \<or> (\<exists>s1 e r. main_try w s = (s1, Inl e) \<and> application_error w e s1 = (fst (main w s), r))"
proof (cases "main_try w s")
  case (Pair s1 r)
  show ?thesis
  proof (cases r)
    case (Inr u)
    with Pair show ?thesis by (simp add: main_def)
  next
    case (Inl e)
    obtain s2 r2 where "application_error w e s1 = (s2, r2)" by (metis prod.exhaust)
    with Pair Inl show ?thesis by (cases r2) (simp_all add: main_def)
  qed
qed

lemma except_project_frame:
  "except_project w s f e = Inr (s', f') \<Longrightarrow>
     ledger s' = ledger s \<and> spawned s' = spawned s \<and> stats_dir s' = stats_dir s \<and>
     requested s' = requested s \<and> printed s' = printed s"
  by (auto simp: except_project_def Let_def effect_defs split: option.splits)

lemma for_projects_frame:
  "for_projects w s f ps = (s', r) \<Longrightarrow>
     ledger s' = ledger s \<and> spawned s' = spawned s \<and> stats_dir s' = stats_dir s"
proof (induction ps arbitrary: s f)
  case Nil
  then show ?case by simp
next
  case (Cons p ps)
  obtain s1 f1 r1 where t: "try_project w s f p = ((s1, f1), r1)"
    by (metis prod.exhaust)
  note fr = try_project_frame [OF t]
  show ?case
  proof (cases r1)
    case None
    with Cons.prems t have "for_projects w s1 f1 ps = (s', r)" by simp
    from Cons.IH [OF this] fr show ?thesis by simp
  next
    case (Some e)
    show ?thesis
    proof (cases "except_project w s1 f1 e")
      case (Inl e')
      with Cons.prems t Some have "s' = s1" by simp
      with fr show ?thesis by simp
    next
      case (Inr sf)
      obtain s2 f2 where sf: "sf = (s2, f2)" by (cases sf)
      with Cons.prems t Some Inr have "for_projects w s2 f2 ps = (s', r)" by simp
      from Cons.IH [OF this] except_project_frame [OF Inr [unfolded sf]] fr
      show ?thesis by simp
    qed
  qed
qed

lemma run_commands_frame:
  "run_commands w s cs = (s', r) \<Longrightarrow>
     ledger s' = ledger s \<and> requested s' = requested s \<and> logged s' = logged s \<and>
     printed s' = printed s \<and> stats_dir s' = stats_dir s"
  by (induction cs arbitrary: s) (auto split: sum.splits)

lemma commit_and_push_changes_frame:
  "commit_and_push_changes w s path = (s', r) \<Longrightarrow>
     ledger s' = ledger s \<and> requested s' = requested s"
  by (auto simp: commit_and_push_changes_def effect_defs split: prod.splits option.splits
           dest!: run_commands_frame)

lemma store_data_ledger:
  "ledger (fst (store_data w s date dd)) =
     Some ((case ledger s of None \<Rightarrow> [header] | Some old \<Rightarrow> old) @ map (ledger_row w date) dd)"
  by (simp add: store_data_def Let_def effect_defs split: option.splits)

lemma store_data_frame:
  "requested (fst (store_data w s date dd)) = requested s \<and>
   spawned (fst (store_data w s date dd)) = spawned s"
  by (simp add: store_data_def Let_def effect_defs split: option.splits)

section \<open>Failing configuration\<close>

text \<open>
  C5.  When loading the configuration fails (the variable is absent, the text is not JSON,
  or it parses to a value with no entries) the script ends in its top-level handler having
  done nothing else: no URL has been requested, the ledger file is as it was (and is not
  created), no command has been started and the directory has not been made; the one
  effect is the error report.
\<close>

theorem config_failure_aborts:
  assumes "environ w ''DOCKER_PROJECTS'' = None
           \<or> (\<exists>txt. environ w ''DOCKER_PROJECTS'' = Some txt
                \<and> ((\<exists>m. json_loads w txt = Inl m)
                   \<or> (\<exists>v. json_loads w txt = Inr v \<and> \<not> truthy v)))"
  shows "requested (fst (main w s)) = requested s
         \<and> ledger (fst (main w s)) = ledger s
         \<and> spawned (fst (main w s)) = spawned s
         \<and> stats_dir (fst (main w s)) = stats_dir s
         \<and> (\<exists>m. logged (fst (main w s)) = logged s @ [(ERROR, ''Application error: '' @ m)])"
proof -
  from assms have "\<exists>e. load_projects w = Inl e"
    by (auto simp: load_projects_def)
  then obtain e where "load_projects w = Inl e" ..
  then have mt: "main_try w s = (s, Inl e)"
    by (simp add: main_try_def init_def)
  obtain s2 r where ae: "application_error w e s = (s2, r)" by (metis prod.exhaust)
  with mt have "fst (main w s) = s2" by (cases r) (simp_all add: main_def)
  with application_error_frame [OF ae] show ?thesis by auto
qed


theorem config_failure_aborts_witness:
  "environ no_config_world ''DOCKER_PROJECTS'' = None
   \<and> requested (fst (main no_config_world state0)) = []
   \<and> ledger (fst (main no_config_world state0)) = None
   \<and> spawned (fst (main no_config_world state0)) = []
   \<and> \<not> stats_dir (fst (main no_config_world state0))"
  using config_failure_aborts [of no_config_world state0]
  by (simp add: no_config_world_def state0_def)

section \<open>How the script ends\<close>

text \<open>
  C10, as the claim states it, fails.  With a user name that is a lone surrogate (from the
  JSON escape \<^verbatim>\<open>\ud800\<close>) the aggregate message cannot be encoded for standard output:
  the \<^verbatim>\<open>print\<close> of the top-level handler raises, nothing catches that, and the
  process ends with a traceback and exit status 1.  And when
  \<^verbatim>\<open>docker_downloads.log\<close> cannot be opened, \<^verbatim>\<open>logging.basicConfig\<close> raises at module
  level, before the \<^verbatim>\<open>try\<close> is entered.
\<close>

theorem handler_print_raises:
  "snd (main_try surrogate_world state0) =
     Inl (Exn PlainException
           (''Error processing '' @ surrogate_name @ ''/app: surrogates not allowed''))
   \<and> snd (script surrogate_world state0) =
       Traceback (Exn UnicodeEncodeError ''surrogates not allowed'')
   \<and> exit_status (snd (script surrogate_world state0)) = 1
   \<and> script no_log_world state0 =
       (state0, Traceback (Exn OSError ''Permission denied: docker_downloads.log''))"
  by (simp add: script_def main_def main_try_def init_def load_projects_def run_def frame0_def
        try_project_def except_project_def get_docker_downloads_def fetch_value_def hub_url_def
        store_and_publish_def application_error_def print_def effect_defs Let_def
        surrogate_world_def surrogate_text_def surrogate_name_def no_log_world_def
        acme_world_def state0_def newline_def)

text \<open>
  C10, amended.  When the log file cannot be opened the script ends with the traceback
  of that exception and has done nothing.  Otherwise: if building the tracker and \<open>run\<close>
  raise nothing, the script ends with exit status 0; if one of them raises (the
  aggregate error of \<open>run\<close> included), the handler logs \<^verbatim>\<open>Application error: ...\<close> at
  level ERROR and then prints \<^verbatim>\<open>Error: ...\<close> after an empty line.  When that print
  succeeds the exception is not raised again and the script ends with exit status 0; when
  the print itself raises, the script ends with the traceback of the print's exception.
\<close>

theorem script_end:
  "(\<forall>e0. open_log_file w = Some e0 \<longrightarrow> script w s = (s, Traceback e0))
   \<and> (open_log_file w = None \<longrightarrow>
        (\<forall>s1 u. main_try w s = (s1, Inr u) \<longrightarrow> script w s = (s1, Exit 0))
        \<and> (\<forall>s1 e. main_try w s = (s1, Inl e) \<longrightarrow>
              logged (fst (script w s)) =
                logged s1 @ [(ERROR, ''Application error: '' @ exn_str e)]
              \<and> (stdout_write w (newline @ ''Error: '' @ exn_str e) = None \<longrightarrow>
                   snd (script w s) = Exit 0
                   \<and> printed (fst (script w s)) =
                       printed s1 @ [newline @ ''Error: '' @ exn_str e])
              \<and> (\<forall>e'. stdout_write w (newline @ ''Error: '' @ exn_str e) = Some e' \<longrightarrow>
                   snd (script w s) = Traceback e'
                   \<and> printed (fst (script w s)) = printed s1)))"
proof -
  have ok: "main w s = (s1, Exit 0)" if "main_try w s = (s1, Inr u)" for s1 u
    using that by (simp add: main_def)
  have printed_ok: "main w s =
      ((logging_error (''Application error: '' @ exn_str e) s1)
         \<lparr>printed := printed s1 @ [newline @ ''Error: '' @ exn_str e]\<rparr>, Exit 0)"
    if "main_try w s = (s1, Inl e)" "stdout_write w (newline @ ''Error: '' @ exn_str e) = None"
    for s1 e
    using that by (simp add: main_def application_error_def print_def Let_def effect_defs)
  have print_raised: "main w s =
      (logging_error (''Application error: '' @ exn_str e) s1, Traceback e')"
    if "main_try w s = (s1, Inl e)" "stdout_write w (newline @ ''Error: '' @ exn_str e) = Some e'"
    for s1 e e'
    using that by (simp add: main_def application_error_def print_def Let_def)
  have logged_main: "logged (fst (main w s)) =
      logged s1 @ [(ERROR, ''Application error: '' @ exn_str e)]"
    if "main_try w s = (s1, Inl e)" for s1 e
  proof (cases "stdout_write w (newline @ ''Error: '' @ exn_str e)")
    case None
    from printed_ok [OF that None] show ?thesis by (simp add: effect_defs)
  next
    case (Some e')
    from print_raised [OF that Some] show ?thesis by (simp add: effect_defs)
  qed
  show ?thesis
    using ok printed_ok print_raised logged_main
    by (simp add: script_def effect_defs)
qed

theorem script_end_witness:
  "main_try no_config_world state0 =
     (state0, Inl (Exn ValueError ''DOCKER_PROJECTS environment variable is not set''))
   \<and> snd (script no_config_world state0) = Exit 0
   \<and> logged (fst (script no_config_world state0)) =
       [(ERROR, ''Application error: DOCKER_PROJECTS environment variable is not set'')]
   \<and> printed (fst (script no_config_world state0)) =
       [newline @ ''Error: DOCKER_PROJECTS environment variable is not set'']
   \<and> main_try acme_world state0 = (fst (script acme_world state0), Inr ())
   \<and> snd (script acme_world state0) = Exit 0
   \<and> stdout_write mute_world (newline @ ''Error: DOCKER_PROJECTS environment variable is not set'')
       = Some (Exn UnicodeEncodeError ''ordinal not in range(128)'')
   \<and> snd (script mute_world state0) = Traceback (Exn UnicodeEncodeError ''ordinal not in range(128)'')
   \<and> printed (fst (script mute_world state0)) = []
   \<and> open_log_file no_log_world = Some (Exn OSError ''Permission denied: docker_downloads.log'')
   \<and> script no_log_world state0 =
       (state0, Traceback (Exn OSError ''Permission denied: docker_downloads.log''))"
proof -
  have h: "main_try no_config_world state0 =
     (state0, Inl (Exn ValueError ''DOCKER_PROJECTS environment variable is not set''))"
    by (simp add: main_try_def init_def load_projects_def no_config_world_def)
  have hm: "main_try mute_world state0 =
     (state0, Inl (Exn ValueError ''DOCKER_PROJECTS environment variable is not set''))"
    by (simp add: main_try_def init_def load_projects_def mute_world_def no_config_world_def)
  obtain s1 where a: "main_try acme_world state0 = (s1, Inr ())"
    by (simp add: main_try_def init_def load_projects_def run_def frame0_def
        try_project_def get_docker_downloads_def fetch_value_def raise_for_status_def
        hub_url_def store_and_publish_def store_data_def getenv_truthy_def print_def
        effect_defs Let_def acme_world_def acme_projects_def acme_text_def state0_def)
  have o: "open_log_file no_config_world = None" "open_log_file acme_world = None"
      "open_log_file mute_world = None"
      "open_log_file no_log_world = Some (Exn OSError ''Permission denied: docker_downloads.log'')"
    by (simp_all add: no_config_world_def acme_world_def mute_world_def no_log_world_def)
  have w: "stdout_write no_config_world
             (newline @ ''Error: DOCKER_PROJECTS environment variable is not set'') = None"
      "stdout_write mute_world
             (newline @ ''Error: DOCKER_PROJECTS environment variable is not set'') =
         Some (Exn UnicodeEncodeError ''ordinal not in range(128)'')"
    by (simp_all add: no_config_world_def acme_world_def mute_world_def)
  show ?thesis
    using script_end [of no_config_world state0] script_end [of acme_world state0]
          script_end [of mute_world state0] script_end [of no_log_world state0] h hm a o w
    by (simp add: state0_def)
qed

section \<open>The ledger is only appended to\<close>

lemma store_data_calls_ledger:
  "ledger (store_data_calls w s calls) =
     (if calls = [] then ledger s
      else Some ((case ledger s of None \<Rightarrow> [header] | Some old \<Rightarrow> old)
                 @ concat (map (\<lambda>c. map (ledger_row w (fst c)) (snd c)) calls)))"
  by (induction calls arbitrary: s) (auto simp: store_data_ledger split: option.splits)

lemma store_and_publish_ledger:
  "ledger (fst (store_and_publish w s date f)) =
     (if downloads_data f = [] then ledger s
      else Some ((case ledger s of None \<Rightarrow> [header] | Some old \<Rightarrow> old)
                 @ map (ledger_row w date) (downloads_data f)))"
proof (cases "downloads_data f = []")
  case True
  then show ?thesis by (simp add: store_and_publish_def)
next
  case False
  obtain s1 path where st: "store_data w s date (downloads_data f) = (s1, path)"
    by (metis prod.exhaust)
  have l1: "ledger s1 = Some ((case ledger s of None \<Rightarrow> [header] | Some old \<Rightarrow> old)
                 @ map (ledger_row w date) (downloads_data f))"
    using store_data_ledger [of w s date "downloads_data f"] st by simp
  show ?thesis
  proof (cases "getenv_truthy w ''GITHUB_ACTIONS''")
    case False
    with \<open>downloads_data f \<noteq> []\<close> st l1 show ?thesis by (simp add: store_and_publish_def)
  next
    case True
    obtain s2 r where cp: "commit_and_push_changes w s1 path = (s2, r)"
      by (metis prod.exhaust)
    from commit_and_push_changes_frame [OF cp] have "ledger s2 = ledger s1" by simp
    with True \<open>downloads_data f \<noteq> []\<close> st l1 cp show ?thesis
      by (cases r) (simp_all add: store_and_publish_def)
  qed
qed

lemma run_ledger:
  "ledger (fst (run w s projects)) = ledger s
   \<or> (\<exists>new. ledger (fst (run w s projects)) =
              Some ((case ledger s of None \<Rightarrow> [header] | Some old \<Rightarrow> old) @ new))"
proof (cases "py_iter projects")
  case (Inl e)
  then show ?thesis by (simp add: run_def)
next
  case (Inr ps)
  obtain s1 r where fp: "for_projects w s frame0 ps = (s1, r)" by (metis prod.exhaust)
  from for_projects_frame [OF fp] have l: "ledger s1 = ledger s" by simp
  show ?thesis
  proof (cases r)
    case (Inl e)
    with Inr fp l show ?thesis by (simp add: run_def)
  next
    case f: (Inr f)
    obtain s2 errs where sp: "store_and_publish w s1 (strftime_ymd (now_at_run w)) f = (s2, errs)"
      by (metis prod.exhaust)
    have "ledger (fst (run w s projects)) = ledger s2"
      using Inr fp f sp by (simp add: run_def effect_defs)
    moreover have "ledger s2 = (if downloads_data f = [] then ledger s1
      else Some ((case ledger s1 of None \<Rightarrow> [header] | Some old \<Rightarrow> old)
                 @ map (ledger_row w (strftime_ymd (now_at_run w))) (downloads_data f)))"
      using store_and_publish_ledger [of w s1 "strftime_ymd (now_at_run w)" f] sp by simp
    ultimately show ?thesis using l by auto
  qed
qed

lemma main_ledger:
  "ledger (fst (main w s)) = ledger s
   \<or> (\<exists>new. ledger (fst (main w s)) =
              Some ((case ledger s of None \<Rightarrow> [header] | Some old \<Rightarrow> old) @ new))"
proof (cases "load_projects w")
  case (Inl e)
  then have "main_try w s = (s, Inl e)" by (simp add: main_try_def init_def)
  with main_state [of w s] show ?thesis by (auto dest: application_error_frame)
next
  case (Inr projects)
  then have mt: "main_try w s = run w (s\<lparr>stats_dir := True\<rparr>) projects"
    by (simp add: main_try_def init_def)
  have "ledger (fst (main w s)) = ledger (fst (main_try w s))"
    using main_state [of w s] by (auto dest: application_error_frame)
  with mt have "ledger (fst (main w s)) = ledger (fst (run w (s\<lparr>stats_dir := True\<rparr>) projects))"
    by simp
  with run_ledger [of w "s\<lparr>stats_dir := True\<rparr>" projects] show ?thesis by simp
qed

text \<open>
  C2.  Writing to a ledger that does not exist creates it with the header row
  \<^verbatim>\<open>Date,Repository,Downloads\<close> followed by the new rows; writing to one that exists
  leaves its content in place and adds the new rows after it, with no second header.  Over
  any sequence of writes that starts without the file the header is therefore written
  once, at the front.  A whole execution of the script keeps whatever the ledger held
  before as a prefix of what it holds afterwards.
\<close>

theorem ledger_append_only:
  "(ledger s = None \<longrightarrow>
      ledger (fst (store_data w s date dd)) =
        Some ([JStr ''Date'', JStr ''Repository'', JStr ''Downloads'']
              # map (ledger_row w date) dd))
   \<and> (\<forall>old. ledger s = Some old \<longrightarrow>
         ledger (fst (store_data w s date dd)) = Some (old @ map (ledger_row w date) dd))
   \<and> (ledger s = None \<and> calls \<noteq> [] \<longrightarrow>
         ledger (store_data_calls w s calls) =
           Some ([JStr ''Date'', JStr ''Repository'', JStr ''Downloads'']
                 # concat (map (\<lambda>c. map (ledger_row w (fst c)) (snd c)) calls)))
   \<and> (\<forall>old. ledger s = Some old \<longrightarrow>
         (\<exists>new. ledger (fst (script w s)) = Some (old @ new)))"
proof -
  have "\<exists>new. ledger (fst (script w s)) = Some (old @ new)" if "ledger s = Some old" for old
  proof (cases "open_log_file w")
    case (Some e)
    with that show ?thesis by (simp add: script_def)
  next
    case None
    with main_ledger [of w s] that show ?thesis by (auto simp: script_def)
  qed
  then show ?thesis
    by (simp add: store_data_ledger store_data_calls_ledger header_def)
qed

theorem ledger_append_only_witness:
  "ledger state0 = None
   \<and> ledger (fst (store_data acme_world state0 ''2024-01-01'' [acme_download])) =
       Some [[JStr ''Date'', JStr ''Repository'', JStr ''Downloads''],
             [JStr ''2024-01-01'', JStr ''acme/app'', JNum 42]]
   \<and> ledger (store_data_calls acme_world state0
         [(''2024-01-01'', [acme_download]), (''2024-01-02'', [acme_download])]) =
       Some [[JStr ''Date'', JStr ''Repository'', JStr ''Downloads''],
             [JStr ''2024-01-01'', JStr ''acme/app'', JNum 42],
             [JStr ''2024-01-02'', JStr ''acme/app'', JNum 42]]
   \<and> ledger state1 =
       Some [[JStr ''Date'', JStr ''Repository'', JStr ''Downloads''],
             [JStr ''2023-12-31'', JStr ''acme/app'', JNum 40]]
   \<and> ledger (fst (store_data acme_world state1 ''2024-01-01'' [acme_download])) =
       Some [[JStr ''Date'', JStr ''Repository'', JStr ''Downloads''],
             [JStr ''2023-12-31'', JStr ''acme/app'', JNum 40],
             [JStr ''2024-01-01'', JStr ''acme/app'', JNum 42]]
   \<and> (\<exists>new. ledger (fst (script acme_world state1)) =
          Some ([[JStr ''Date'', JStr ''Repository'', JStr ''Downloads''],
                 [JStr ''2023-12-31'', JStr ''acme/app'', JNum 40]] @ new))"
  using ledger_append_only [of state0 acme_world "''2024-01-01''" "[acme_download]"
          "[(''2024-01-01'', [acme_download]), (''2024-01-02'', [acme_download])]"]
        ledger_append_only [of state1 acme_world "''2024-01-01''" "[acme_download]" "[]"]
  by (simp add: state0_def state1_def ledger_row_def acme_download_def)

section \<open>Failures of a fetch\<close>

lemma fetch_value_status:
  "400 \<le> status \<Longrightarrow> status < 600 \<Longrightarrow>
     \<exists>m. fetch_value url (Response status reason body) = Inl (Exn HTTPError m)"
  by (simp add: fetch_value_def raise_for_status_def)

lemma fetch_value_missing:
  "\<not> (400 \<le> status \<and> status < 600) \<Longrightarrow> map_of kvs ''pull_count'' = None \<Longrightarrow>
     fetch_value url (Response status reason (Inr (JObj kvs))) =
       Inl (Exn KeyError (quote @ ''pull_count'' @ quote))"
  by (auto simp add: fetch_value_def raise_for_status_def)

lemma get_docker_downloads_raises:
  "fetch_value (hub_url u r) (http_get w (length (requested s)) (hub_url u r)) = Inl e \<Longrightarrow>
     snd (get_docker_downloads w s u r) = Inl e
     \<and> logged (fst (get_docker_downloads w s u r)) =
         (if is_RequestException (exn_cls e)
          then logged s @ [(ERROR, ''Failed to fetch Docker Hub data for '' @ u @ ''/'' @ r
                                   @ '': '' @ exn_str e)]
          else logged s)"
  by (simp add: get_docker_downloads_def Let_def effect_defs)

lemma get_docker_downloads_requested:
  "requested (fst (get_docker_downloads w s u r)) = requested s @ [hub_url u r]"
  using get_docker_downloads_frame [of w s u r] by (cases "get_docker_downloads w s u r") simp

text \<open>
  C6, as the claim states it, fails: when the response body has no \<^verbatim>\<open>pull_count\<close>
  the fetch raises \<^verbatim>\<open>KeyError\<close>, which is not a \<^verbatim>\<open>RequestException\<close>, so the handler
  of \<^verbatim>\<open>get_docker_downloads\<close> is not entered and no log entry is emitted by the fetch.
\<close>

theorem missing_pull_count_not_logged:
  "http_get no_count_world 0 (hub_url ''acme'' ''app'') =
     Response 200 ''OK'' (Inr (JObj [(''name'', JStr ''app'')]))
   \<and> snd (get_docker_downloads no_count_world state0 ''acme'' ''app'') =
       Inl (Exn KeyError (quote @ ''pull_count'' @ quote))
   \<and> logged (fst (get_docker_downloads no_count_world state0 ''acme'' ''app'')) = logged state0"
  by (simp add: no_count_world_def acme_world_def state0_def get_docker_downloads_def
                fetch_value_def raise_for_status_def Let_def)

text \<open>
  C6, amended.  \<^verbatim>\<open>get_docker_downloads\<close> issues exactly one request (it never retries).
  On a timeout, and on a response with status 400 to 599, it logs
  \<^verbatim>\<open>Failed to fetch Docker Hub data for u/r: m\<close> at level ERROR
  and raises that same exception.  On a response without error status whose body is an
  object that lacks \<^verbatim>\<open>pull_count\<close> it raises \<^verbatim>\<open>KeyError\<close> and logs nothing.
\<close>

theorem fetch_failures:
  "(let url = hub_url u r;
        res = get_docker_downloads w s u r;
        failed = (\<lambda>m. (ERROR, ''Failed to fetch Docker Hub data for '' @ u @ ''/''
                              @ r @ '': '' @ m))
    in requested (fst res) = requested s @ [url]
       \<and> (\<forall>m. http_get w (length (requested s)) url = Transport (Exn Timeout m) \<longrightarrow>
             snd res = Inl (Exn Timeout m) \<and> logged (fst res) = logged s @ [failed m])
       \<and> (\<forall>status reason body.
             http_get w (length (requested s)) url = Response status reason body
             \<and> 400 \<le> status \<and> status < 600 \<longrightarrow>
             (\<exists>m. snd res = Inl (Exn HTTPError m) \<and> logged (fst res) = logged s @ [failed m]))
       \<and> (\<forall>status reason kvs.
             http_get w (length (requested s)) url = Response status reason (Inr (JObj kvs))
             \<and> \<not> (400 \<le> status \<and> status < 600) \<and> map_of kvs ''pull_count'' = None \<longrightarrow>
             snd res = Inl (Exn KeyError (quote @ ''pull_count'' @ quote))
             \<and> logged (fst res) = logged s))"
proof -
  let ?url = "hub_url u r"
  let ?out = "http_get w (length (requested s)) ?url"
  have a: "snd (get_docker_downloads w s u r) = Inl (Exn Timeout m)
           \<and> logged (fst (get_docker_downloads w s u r)) =
               logged s @ [(ERROR, ''Failed to fetch Docker Hub data for '' @ u @ ''/'' @ r
                                   @ '': '' @ m)]"
    if "?out = Transport (Exn Timeout m)" for m
    using get_docker_downloads_raises [of u r w s "Exn Timeout m"] that
    by (simp add: fetch_value_def)
  have b: "\<exists>m. snd (get_docker_downloads w s u r) = Inl (Exn HTTPError m)
           \<and> logged (fst (get_docker_downloads w s u r)) =
               logged s @ [(ERROR, ''Failed to fetch Docker Hub data for '' @ u @ ''/'' @ r
                                   @ '': '' @ m)]"
    if "?out = Response status reason body" "400 \<le> status" "status < 600"
    for status reason body
  proof -
    from fetch_value_status [OF that(2,3), of ?url reason body]
    have "\<exists>m. fetch_value ?url ?out = Inl (Exn HTTPError m)"
      unfolding that(1) .
    then obtain m where "fetch_value ?url ?out = Inl (Exn HTTPError m)" ..
    from get_docker_downloads_raises [OF this] show ?thesis by auto
  qed
  have c: "snd (get_docker_downloads w s u r) = Inl (Exn KeyError (quote @ ''pull_count'' @ quote))
           \<and> logged (fst (get_docker_downloads w s u r)) = logged s"
    if "?out = Response status reason (Inr (JObj kvs))" "\<not> (400 \<le> status \<and> status < 600)"
       "map_of kvs ''pull_count'' = None"
    for status reason kvs
  proof -
    have "fetch_value ?url ?out = Inl (Exn KeyError (quote @ ''pull_count'' @ quote))"
      using fetch_value_missing [OF that(2,3)] that(1) by simp
    from get_docker_downloads_raises [OF this] show ?thesis by simp
  qed
  show ?thesis
    unfolding Let_def
    using a b c get_docker_downloads_requested [of w s u r] by blast
qed

theorem fetch_failures_witness:
  "http_get timeout_world 0 (hub_url ''acme'' ''app'') = Transport (Exn Timeout ''Read timed out.'')
   \<and> snd (get_docker_downloads timeout_world state0 ''acme'' ''app'') =
       Inl (Exn Timeout ''Read timed out.'')
   \<and> logged (fst (get_docker_downloads timeout_world state0 ''acme'' ''app'')) =
       [(ERROR, ''Failed to fetch Docker Hub data for acme/app: Read timed out.'')]
   \<and> http_get not_found_world 0 (hub_url ''acme'' ''app'') =
       Response 404 ''Not Found'' (Inr (JObj []))
   \<and> (\<exists>m. snd (get_docker_downloads not_found_world state0 ''acme'' ''app'') =
            Inl (Exn HTTPError m)
          \<and> logged (fst (get_docker_downloads not_found_world state0 ''acme'' ''app'')) =
            [(ERROR, ''Failed to fetch Docker Hub data for acme/app: '' @ m)])
   \<and> http_get no_count_world 0 (hub_url ''acme'' ''app'') =
       Response 200 ''OK'' (Inr (JObj [(''name'', JStr ''app'')]))
   \<and> snd (get_docker_downloads no_count_world state0 ''acme'' ''app'') =
       Inl (Exn KeyError (quote @ ''pull_count'' @ quote))
   \<and> logged (fst (get_docker_downloads no_count_world state0 ''acme'' ''app'')) = []
   \<and> requested (fst (get_docker_downloads no_count_world state0 ''acme'' ''app'')) =
       [hub_url ''acme'' ''app'']"
proof -
  have t: "http_get timeout_world 0 (hub_url ''acme'' ''app'') =
             Transport (Exn Timeout ''Read timed out.'')"
    by (simp add: timeout_world_def)
  have n: "http_get not_found_world 0 (hub_url ''acme'' ''app'') =
             Response 404 ''Not Found'' (Inr (JObj []))"
    by (simp add: not_found_world_def)
  have c: "http_get no_count_world 0 (hub_url ''acme'' ''app'') =
             Response 200 ''OK'' (Inr (JObj [(''name'', JStr ''app'')]))"
    by (simp add: no_count_world_def)
  have s0: "requested state0 = []" "logged state0 = []"
    by (simp_all add: state0_def)
  show ?thesis
    using fetch_failures [of "''acme''" "''app''" timeout_world state0]
          fetch_failures [of "''acme''" "''app''" not_found_world state0]
          fetch_failures [of "''acme''" "''app''" no_count_world state0]
          t n c
    by (simp add: Let_def s0)
qed

section \<open>Exit statuses of the version-control steps\<close>

text \<open>
  C7.  The code at an input where the claim fails: all five commands start,
  \<^verbatim>\<open>git push\<close> ends with exit status 1, and \<^verbatim>\<open>commit_and_push_changes\<close> still
  returns normally after logging that the changes were committed and pushed.
\<close>

theorem commit_ignores_exit_status:
  "subprocess_run push_rejected_world 4 [''git'', ''push''] = Inr 1
   \<and> snd (commit_and_push_changes push_rejected_world state0 csv_file) = Inr ()
   \<and> logged (fst (commit_and_push_changes push_rejected_world state0 csv_file)) =
       [(INFO, ''Successfully committed and pushed changes to GitHub'')]
   \<and> spawned (fst (commit_and_push_changes push_rejected_world state0 csv_file)) =
       git_commands push_rejected_world csv_file"
  by (simp add: push_rejected_world_def acme_world_def state0_def commit_and_push_changes_def
                git_commands_def effect_defs)

section \<open>The loop over the projects\<close>

lemma successes_append:
  "successes w k (xs @ ys) = successes w k xs + successes w (k + length xs) ys"
  by (induction xs arbitrary: k) auto

lemma get_docker_downloads_result:
  "snd (get_docker_downloads w s u r) =
     fetch_value (hub_url u r) (http_get w (length (requested s)) (hub_url u r))"
  by (simp add: get_docker_downloads_def Let_def split: sum.splits)

text \<open>One iteration: at most one request, and a record exactly when it succeeded.\<close>

lemma try_project_step:
  assumes "try_project w s f p = ((s1, f1), r)"
  shows "\<exists>urls. requested s1 = requested s @ urls
           \<and> length (downloads_data f1) =
               length (downloads_data f) + successes w (length (requested s)) urls
           \<and> errors f1 = errors f"
proof (cases "\<exists>kvs. p = JObj kvs")
  case False
  then have "py_get p ''username'' = Inl (Exn AttributeError
       (quote @ type_name p @ quote @ '' object has no attribute '' @ quote @ ''get'' @ quote))"
    by (cases p) simp_all
  with assms have "s1 = s" "f1 = f" by (simp_all add: try_project_def)
  then show ?thesis by simp
next
  case True
  then obtain kvs where p: "p = JObj kvs" by blast
  define u where "u = (case map_of kvs ''username'' of None \<Rightarrow> JNull | Some v \<Rightarrow> v)"
  define r' where "r' = (case map_of kvs ''repository'' of None \<Rightarrow> JNull | Some v \<Rightarrow> v)"
  show ?thesis
  proof (cases "\<not> truthy u \<or> \<not> truthy r'")
    case True
    with assms p have "s1 = s" "downloads_data f1 = downloads_data f" "errors f1 = errors f"
      by (auto simp: try_project_def Let_def u_def r'_def)
    then show ?thesis by simp
  next
    case False
    let ?un = "py_str (repr_str w) u"
    let ?rn = "py_str (repr_str w) r'"
    let ?s0 = "logging_info (''Processing '' @ ?un @ ''/'' @ ?rn) s"
    let ?url = "hub_url ?un ?rn"
    obtain s2 res where g: "get_docker_downloads w ?s0 ?un ?rn = (s2, res)"
      by (metis prod.exhaust)
    have rq0: "requested ?s0 = requested s" by (simp add: effect_defs)
    from get_docker_downloads_frame [OF g] rq0
    have rq2: "requested s2 = requested s @ [?url]" by simp
    from get_docker_downloads_result [of w ?s0 ?un ?rn] g rq0
    have res: "res = fetch_value ?url (http_get w (length (requested s)) ?url)" by simp
    show ?thesis
    proof (cases res)
      case (Inl e)
      with assms p False g have "s1 = s2" "downloads_data f1 = downloads_data f"
          "errors f1 = errors f"
        by (auto simp: try_project_def Let_def u_def r'_def)
      moreover from Inl res have "\<not> fetch_ok w (length (requested s)) ?url"
        by (simp add: fetch_ok_def)
      ultimately show ?thesis using rq2 by simp
    next
      case (Inr c)
      with assms p False g have "requested s1 = requested s2"
          "length (downloads_data f1) = Suc (length (downloads_data f))" "errors f1 = errors f"
        by (auto simp: try_project_def Let_def u_def r'_def effect_defs split: sum.splits
                 dest!: print_Inr)
      moreover from Inr res have "fetch_ok w (length (requested s)) ?url"
        by (simp add: fetch_ok_def)
      ultimately show ?thesis using rq2 by simp
    qed
  qed
qed

lemma try_project_bound:
  assumes "try_project w s f p = ((s1, f1), r)"
  shows "(bound f \<longrightarrow> bound f1) \<and> (\<not> bound f1 \<longrightarrow> s1 = s \<and> f1 = f \<and> r \<noteq> None)"
proof (cases "\<exists>kvs. p = JObj kvs")
  case False
  then have "py_get p ''username'' = Inl (Exn AttributeError
       (quote @ type_name p @ quote @ '' object has no attribute '' @ quote @ ''get'' @ quote))"
    by (cases p) simp_all
  with assms show ?thesis by (auto simp: try_project_def)
next
  case True
  then obtain kvs where p: "p = JObj kvs" by blast
  with assms have "bound f1"
    by (auto simp: try_project_def Let_def bound_def split: if_splits prod.splits sum.splits)
  then show ?thesis by simp
qed

lemma except_project_bound:
  "bound f \<Longrightarrow> \<exists>s' f'. except_project w s f e = Inr (s', f') \<and> bound f'
      \<and> requested s' = requested s \<and> downloads_data f' = downloads_data f"
  by (auto simp: except_project_def bound_def Let_def effect_defs)

lemma except_project_unbound:
  "\<not> bound f \<Longrightarrow> \<exists>e'. except_project w s f e = Inl e'"
  by (auto simp: except_project_def bound_def split: option.splits)


lemma for_projects_bound:
  "bound f \<Longrightarrow> \<exists>f'. snd (for_projects w s f ps) = Inr f' \<and> bound f'"
proof (induction ps arbitrary: s f)
  case Nil
  then show ?case by simp
next
  case (Cons p ps)
  obtain s1 f1 r1 where t: "try_project w s f p = ((s1, f1), r1)"
    by (metis prod.exhaust)
  from try_project_bound [OF t] Cons.prems have b1: "bound f1" by simp
  show ?case
  proof (cases r1)
    case None
    with t Cons.IH [OF b1, of s1] show ?thesis by simp
  next
    case (Some e)
    from except_project_bound [OF b1, of w s1 e]
    obtain s2 f2 where "except_project w s1 f1 e = Inr (s2, f2)" "bound f2" by blast
    with t Some Cons.IH [of f2 s2] show ?thesis by simp
  qed
qed

text \<open>
  The loop as a whole: it either leaves through its handler before anything was requested,
  or it ends with one record more for each request that succeeded.
\<close>

lemma for_projects_counts:
  "for_projects w s f ps = (s', r) \<Longrightarrow>
     \<exists>urls. requested s' = requested s @ urls
       \<and> (case r of
            Inr f' \<Rightarrow> length (downloads_data f') =
                        length (downloads_data f) + successes w (length (requested s)) urls
          | Inl e \<Rightarrow> urls = [])"
proof (induction ps arbitrary: s f)
  case Nil
  then show ?case by auto
next
  case (Cons p ps)
  obtain s1 f1 r1 where t: "try_project w s f p = ((s1, f1), r1)"
    by (metis prod.exhaust)
  from try_project_step [OF t] obtain urls1 where
    u1: "requested s1 = requested s @ urls1"
        "length (downloads_data f1) =
           length (downloads_data f) + successes w (length (requested s)) urls1"
    by blast
  show ?case
  proof (cases "bound f1")
    case False
    with try_project_bound [OF t] obtain e where e: "s1 = s" "f1 = f" "r1 = Some e" by auto
    from except_project_unbound [OF False, of w s1 e]
    obtain e' where "except_project w s1 f1 e = Inl e'" by blast
    with t e Cons.prems have "s' = s" "r = Inl e'" by simp_all
    then show ?thesis by simp
  next
    case True
    have "\<exists>s2 f2. for_projects w s (f :: frame) (p # ps) = for_projects w s2 f2 ps
            \<and> bound f2 \<and> requested s2 = requested s1
            \<and> downloads_data f2 = downloads_data f1"
    proof (cases r1)
      case None
      with t True show ?thesis by auto
    next
      case (Some e)
      from except_project_bound [OF True, of w s1 e] obtain s2 f2 where
        x: "except_project w s1 f1 e = Inr (s2, f2)" "bound f2"
           "requested s2 = requested s1" "downloads_data f2 = downloads_data f1"
        by blast
      from t Some x(1) have "for_projects w s f (p # ps) = for_projects w s2 f2 ps" by simp
      with x(2-4) show ?thesis by blast
    qed
    then obtain s2 f2 where
      st: "for_projects w s f (p # ps) = for_projects w s2 f2 ps" "bound f2"
          "requested s2 = requested s1" "downloads_data f2 = downloads_data f1"
      by blast
    from st(1) Cons.prems have fp: "for_projects w s2 f2 ps = (s', r)" by simp
    from Cons.IH [OF fp] obtain urls2 where
      u2: "requested s' = requested s2 @ urls2"
          "case r of
             Inr f' \<Rightarrow> length (downloads_data f') =
                         length (downloads_data f2) + successes w (length (requested s2)) urls2
           | Inl e \<Rightarrow> urls2 = []"
      by blast
    from for_projects_bound [OF st(2), of w s2 ps] fp obtain f' where r: "r = Inr f'" by auto
    have "requested s' = requested s @ (urls1 @ urls2)"
      using u1(1) u2(1) st(3) by simp
    moreover have "length (downloads_data f') =
        length (downloads_data f) + successes w (length (requested s)) (urls1 @ urls2)"
      using u1 u2(2) r st(3,4) by (simp add: successes_append)
    ultimately show ?thesis unfolding r by (intro exI [of _ "urls1 @ urls2"]) simp
  qed
qed

lemma for_projects_escape:
  "for_projects w s f ps = (s', Inl e) \<Longrightarrow> requested s' = requested s"
  using for_projects_counts [of w s f ps s' "Inl e"] by auto

lemma run_commands_spawned:
  "run_commands w s cs = (s', r) \<Longrightarrow> cs \<noteq> [] \<Longrightarrow> length (spawned s) < length (spawned s')"
proof (induction cs arbitrary: s)
  case Nil
  then show ?case by simp
next
  case (Cons c cs)
  show ?case
  proof (cases "subprocess_run w (length (spawned s)) c")
    case (Inl e)
    with Cons.prems show ?thesis by auto
  next
    case (Inr rc)
    with Cons.prems have rc: "run_commands w (s\<lparr>spawned := spawned s @ [c]\<rparr>) cs = (s', r)"
      by simp
    show ?thesis
    proof (cases cs)
      case Nil
      with rc show ?thesis by auto
    next
      case (Cons d ds)
      with Cons.IH [OF rc] show ?thesis by simp
    qed
  qed
qed

lemma commit_and_push_changes_spawned:
  "spawned (fst (commit_and_push_changes w s path)) \<noteq> spawned s"
proof -
  obtain s1 r where rc: "run_commands w s (git_commands w path) = (s1, r)"
    by (metis prod.exhaust)
  from run_commands_spawned [OF rc] have "length (spawned s) < length (spawned s1)"
    by (simp add: git_commands_def)
  moreover have "spawned (fst (commit_and_push_changes w s path)) = spawned s1"
    using rc by (simp add: commit_and_push_changes_def effect_defs split: option.splits)
  ultimately show ?thesis by auto
qed

section \<open>When the publish step is attempted\<close>

lemma store_and_publish_requested:
  "requested (fst (store_and_publish w s date f)) = requested s"
proof (cases "downloads_data f \<noteq> [] \<and> getenv_truthy w ''GITHUB_ACTIONS''")
  case False
  then show ?thesis
    using store_data_frame [of w s date "downloads_data f"]
    by (auto simp: store_and_publish_def split: prod.splits)
next
  case True
  obtain s1 path where st: "store_data w s date (downloads_data f) = (s1, path)"
    by (metis prod.exhaust)
  obtain s2 r where cp: "commit_and_push_changes w s1 path = (s2, r)"
    by (metis prod.exhaust)
  from store_data_frame [of w s date "downloads_data f"] st
  have "requested s1 = requested s" by simp
  with commit_and_push_changes_frame [OF cp] have "requested s2 = requested s" by simp
  with True st cp show ?thesis by (cases r) (simp_all add: store_and_publish_def)
qed

lemma store_and_publish_spawned:
  "(spawned (fst (store_and_publish w s date f)) \<noteq> spawned s) =
     (downloads_data f \<noteq> [] \<and> getenv_truthy w ''GITHUB_ACTIONS'')"
proof (cases "downloads_data f \<noteq> [] \<and> getenv_truthy w ''GITHUB_ACTIONS''")
  case False
  then show ?thesis
    using store_data_frame [of w s date "downloads_data f"]
    by (auto simp: store_and_publish_def split: prod.splits)
next
  case True
  obtain s1 path where st: "store_data w s date (downloads_data f) = (s1, path)"
    by (metis prod.exhaust)
  obtain s2 r where cp: "commit_and_push_changes w s1 path = (s2, r)"
    by (metis prod.exhaust)
  from store_data_frame [of w s date "downloads_data f"] st
  have "spawned s1 = spawned s" by simp
  with commit_and_push_changes_spawned [of w s1 path] cp
  have "spawned s2 \<noteq> spawned s" by simp
  with True st cp show ?thesis by (cases r) (simp_all add: store_and_publish_def)
qed

lemma store_and_publish_wrote:
  "(ledger (fst (store_and_publish w s date f)) \<noteq> ledger s) = (downloads_data f \<noteq> [])"
  by (cases "ledger s") (simp_all add: store_and_publish_ledger)

text \<open>The state in which \<open>run\<close> ends, case by case.\<close>

lemma run_cases:
  "(\<exists>e. py_iter projects = Inl e \<and> fst (run w s projects) = s)
   \<or> (\<exists>ps s1 e. py_iter projects = Inr ps \<and> for_projects w s frame0 ps = (s1, Inl e)
         \<and> fst (run w s projects) = s1)
   \<or> (\<exists>ps s1 f s2. py_iter projects = Inr ps \<and> for_projects w s frame0 ps = (s1, Inr f)
         \<and> s2 = fst (store_and_publish w s1 (strftime_ymd (now_at_run w)) f)
         \<and> (fst (run w s projects) = s2
            \<or> fst (run w s projects) = logging_info ''Script completed successfully'' s2))"
proof (cases "py_iter projects")
  case (Inl e)
  then show ?thesis by (simp add: run_def)
next
  case (Inr ps)
  obtain s1 r where fp: "for_projects w s frame0 ps = (s1, r)" by (metis prod.exhaust)
  show ?thesis
  proof (cases r)
    case (Inl e)
    with Inr fp show ?thesis by (simp add: run_def)
  next
    case f: (Inr f)
    with Inr fp show ?thesis by (auto simp: run_def split: prod.splits)
  qed
qed

text \<open>
  C4, amended.  \<open>run\<close> starts a version-control command (the publish step is attempted)
  exactly when \<^verbatim>\<open>GITHUB_ACTIONS\<close> is set to a non-empty value and at least one of the
  requests of this run yielded a counter; and a request of this run yielded a counter
  exactly when the run wrote to the ledger.  So with every fetch failing, or with the flag
  unset or empty, no command is started.
\<close>

theorem publish_iff:
  "(spawned (fst (run w s projects)) \<noteq> spawned s) =
     (getenv_truthy w ''GITHUB_ACTIONS''
      \<and> 0 < successes w (length (requested s)) (new_requests s (fst (run w s projects))))
   \<and> (0 < successes w (length (requested s)) (new_requests s (fst (run w s projects)))) =
     (ledger (fst (run w s projects)) \<noteq> ledger s)"
proof -
  let ?s' = "fst (run w s projects)"
  let ?n = "successes w (length (requested s)) (new_requests s ?s')"
  from run_cases [of projects w s] consider
      (iter) e where "py_iter projects = Inl e" "?s' = s"
    | (escape) ps s1 e where "for_projects w s frame0 ps = (s1, Inl e)" "?s' = s1"
    | (finished) ps s1 f s2 where "for_projects w s frame0 ps = (s1, Inr f)"
        "s2 = fst (store_and_publish w s1 (strftime_ymd (now_at_run w)) f)"
        "?s' = s2 \<or> ?s' = logging_info ''Script completed successfully'' s2"
    by blast
  then show ?thesis
  proof cases
    case iter
    then show ?thesis by (simp add: new_requests_def)
  next
    case escape
    from for_projects_frame [OF escape(1)] for_projects_escape [OF escape(1)] escape(2)
    show ?thesis by (simp add: new_requests_def)
  next
    case finished
    from for_projects_counts [OF finished(1)] obtain urls where
      u: "requested s1 = requested s @ urls"
         "length (downloads_data f) = successes w (length (requested s)) urls"
      by (auto simp: frame0_def)
    from for_projects_frame [OF finished(1)]
    have fr: "ledger s1 = ledger s" "spawned s1 = spawned s" by simp_all
    have rq: "requested ?s' = requested s2" "spawned ?s' = spawned s2" "ledger ?s' = ledger s2"
      using finished(3) by (auto simp: effect_defs)
    have "requested s2 = requested s1"
      unfolding finished(2) by (rule store_and_publish_requested)
    with rq(1) u(1) have "new_requests s ?s' = urls" by (simp add: new_requests_def)
    with u(2) have "?n = length (downloads_data f)" by simp
    then have n: "(0 < ?n) = (downloads_data f \<noteq> [])" by simp
    have sp: "(spawned s2 \<noteq> spawned s1) =
                (downloads_data f \<noteq> [] \<and> getenv_truthy w ''GITHUB_ACTIONS'')"
      unfolding finished(2) by (rule store_and_publish_spawned)
    have ld: "(ledger s2 \<noteq> ledger s1) = (downloads_data f \<noteq> [])"
      unfolding finished(2) by (rule store_and_publish_wrote)
    from n sp ld rq fr show ?thesis by auto
  qed
qed

section \<open>Runs on the sample worlds\<close>

lemmas run_eval =
  main_def main_try_def init_def load_projects_def run_def frame0_def try_project_def
  except_project_def get_docker_downloads_def fetch_value_def raise_for_status_def hub_url_def
  store_and_publish_def store_data_def commit_and_push_changes_def git_commands_def
  getenv_truthy_def strftime_ymd_def pad2_def digits.simps digit_def commas.simps header_def
  ledger_row_def csv_file_def application_error_def unbound_local_def effect_defs Let_def
  print_def

lemmas world_defs =
  acme_world_def ci_world_def no_git_world_def bad_first_world_def bad_second_world_def
  acme_projects_def acme_entry_def acme_text_def bad_first_text_def bad_second_text_def
  state0_def

theorem publish_iff_witness:
  "getenv_truthy ci_world ''GITHUB_ACTIONS''
   \<and> spawned (fst (run ci_world state0 acme_projects)) \<noteq> spawned state0
   \<and> ledger (fst (run ci_world state0 acme_projects)) \<noteq> ledger state0
   \<and> \<not> getenv_truthy acme_world ''GITHUB_ACTIONS''
   \<and> spawned (fst (run acme_world state0 acme_projects)) = spawned state0
   \<and> ledger (fst (run acme_world state0 acme_projects)) \<noteq> ledger state0"
proof -
  have a: "getenv_truthy ci_world ''GITHUB_ACTIONS''"
    by (simp add: run_eval world_defs)
  have b: "\<not> getenv_truthy acme_world ''GITHUB_ACTIONS''"
    by (simp add: run_eval world_defs)
  have c: "ledger (fst (run ci_world state0 acme_projects)) \<noteq> ledger state0"
    by (simp add: run_eval world_defs)
  have d: "ledger (fst (run acme_world state0 acme_projects)) \<noteq> ledger state0"
    by (simp add: run_eval world_defs)
  from publish_iff [of ci_world state0 acme_projects]
       publish_iff [of acme_world state0 acme_projects] a b c d
  show ?thesis by simp
qed

section \<open>An entry that is not an object\<close>

text \<open>
  C3.  The code at an input where the claim fails.  The configuration is
  \<^verbatim>\<open>["oops", {"username":"acme","repository":"app"}]\<close>.  On the first entry
  \<^verbatim>\<open>project.get\<close> raises; the handler of the loop then reads \<open>username\<close>, which
  is not bound yet, and the exception raised there leaves \<open>run\<close>: the second repository,
  whose fetch would have succeeded, is never requested and nothing is written.
\<close>

theorem bad_first_entry_aborts:
  "main_try bad_first_world state0 =
     (state0\<lparr>stats_dir := True\<rparr>, Inl (unbound_local ''username''))
   \<and> requested (fst (main bad_first_world state0)) = []
   \<and> ledger (fst (main bad_first_world state0)) = None
   \<and> snd (get_docker_downloads bad_first_world state0 ''acme'' ''app'') = Inr (JNum 42)"
  by (simp add: run_eval world_defs)

text \<open>
  C9.  The code at an input where the claim fails.  The configuration is
  \<^verbatim>\<open>[{"username":"acme","repository":"app"}, "oops"]\<close>.  The fetch of acme/app
  succeeds and its row is written; the failure of the second entry is then logged, and
  aggregated, as \<^verbatim>\<open>Error processing acme/app: ...\<close>, because the handler reads the
  \<open>username\<close> and \<open>repository\<close> left by the iteration before.
\<close>

theorem stale_context_logged:
  "logged (fst (main bad_second_world state0)) =
     [(INFO, ''Processing acme/app''),
      (ERROR, ''Error processing acme/app: '' @ quote @ ''str'' @ quote
              @ '' object has no attribute '' @ quote @ ''get'' @ quote),
      (INFO, ''Created new CSV file for tracking downloads''),
      (INFO, ''Stored download counts for 1 repositories''),
      (ERROR, ''Application error: Error processing acme/app: '' @ quote @ ''str'' @ quote
              @ '' object has no attribute '' @ quote @ ''get'' @ quote)]
   \<and> ledger (fst (main bad_second_world state0)) =
       Some [header, [JStr ''2024-01-01'', JStr ''acme/app'', JNum 42]]"
  by (simp add: run_eval world_defs)

section \<open>A publish step that fails\<close>

lemma commit_and_push_changes_ledger:
  "ledger (fst (commit_and_push_changes w s path)) = ledger s"
  using commit_and_push_changes_frame [of w s path]
  by (cases "commit_and_push_changes w s path") simp

text \<open>
  The path the code does take into its handler: once the ledger has been written,
  \<^verbatim>\<open>commit_and_push_changes\<close> raises only when a child cannot be started.  Then the
  ledger stays as \<^verbatim>\<open>store_data\<close> left it and \<open>run\<close> raises the aggregate of the
  messages of the loop followed by \<^verbatim>\<open>Failed to commit changes: ...\<close>.
\<close>

lemma publish_exception_keeps_ledger:
  assumes "py_iter projects = Inr ps"
    and "for_projects w s frame0 ps = (s1, Inr f)"
    and "downloads_data f \<noteq> []"
    and "getenv_truthy w ''GITHUB_ACTIONS''"
    and "store_data w s1 (strftime_ymd (now_at_run w)) (downloads_data f) = (s2, path)"
    and "commit_and_push_changes w s2 path = (s3, Inl e)"
  shows "ledger (fst (run w s projects)) = ledger s2
    \<and> ledger s2 = Some ((case ledger s of None \<Rightarrow> [header] | Some old \<Rightarrow> old)
                        @ map (ledger_row w (strftime_ymd (now_at_run w))) (downloads_data f))
    \<and> snd (run w s projects) =
        Inl (Exn PlainException
              (join newline (errors f @ [''Failed to commit changes: '' @ exn_str e])))"
proof -
  have "ledger s3 = ledger s2"
    using commit_and_push_changes_ledger [of w s2 path] assms(6) by simp
  moreover have "ledger s1 = ledger s"
    using for_projects_frame [OF assms(2)] by simp
  moreover have "ledger s2 = Some ((case ledger s1 of None \<Rightarrow> [header] | Some old \<Rightarrow> old)
                        @ map (ledger_row w (strftime_ymd (now_at_run w))) (downloads_data f))"
    using store_data_ledger [of w s1 "strftime_ymd (now_at_run w)" "downloads_data f"] assms(5)
    by simp
  moreover have "run w s projects =
       (s3, Inl (Exn PlainException
              (join newline (errors f @ [''Failed to commit changes: '' @ exn_str e]))))"
    using assms by (simp add: run_def store_and_publish_def)
  ultimately show ?thesis by simp
qed

text \<open>
  C8.  The code at an input where the claim fails.  The flag is set, the fetch of
  acme/app succeeds and its row is written; all five commands start and \<^verbatim>\<open>git push\<close>
  ends with exit status 1, so the publish step has failed.  The row stays in the ledger,
  as the claim says, but nothing is added to the error list: \<open>run\<close> logs that the changes
  were pushed and that the script completed, and returns normally.
\<close>

theorem rejected_push_not_reported:
  "getenv_truthy ci_push_rejected_world ''GITHUB_ACTIONS''
   \<and> subprocess_run ci_push_rejected_world 4 [''git'', ''push''] = Inr 1
   \<and> spawned (fst (run ci_push_rejected_world state0 acme_projects)) =
       [[''git'', ''config'', ''user.name'', ''GitHub Actions Bot''],
        [''git'', ''config'', ''user.email'', ''actions@github.com''],
        [''git'', ''add'', ''stats/docker_downloads.csv''],
        [''git'', ''commit'', ''-m'', ''Update download stats for 2024-01-01''],
        [''git'', ''push'']]
   \<and> ledger (fst (run ci_push_rejected_world state0 acme_projects)) =
       Some [[JStr ''Date'', JStr ''Repository'', JStr ''Downloads''],
             [JStr ''2024-01-01'', JStr ''acme/app'', JNum 42]]
   \<and> snd (run ci_push_rejected_world state0 acme_projects) = Inr ()
   \<and> logged (fst (run ci_push_rejected_world state0 acme_projects)) =
       [(INFO, ''Processing acme/app''),
        (INFO, ''Created new CSV file for tracking downloads''),
        (INFO, ''Stored download counts for 1 repositories''),
        (INFO, ''Successfully committed and pushed changes to GitHub''),
        (INFO, ''Script completed successfully'')]"
  by (simp add: run_eval world_defs ci_push_rejected_world_def)

section \<open>A run in which every fetch succeeds\<close>

lemma entry_nameD:
  "entry_name p = Some (u, r) \<Longrightarrow>
     u \<noteq> [] \<and> r \<noteq> [] \<and> py_get p ''username'' = Inr (JStr u)
     \<and> py_get p ''repository'' = Inr (JStr r)"
  by (cases p) (auto split: option.splits json.splits if_splits)

lemma try_project_valid:
  assumes "entry_name p = Some (u, r)"
    and "fetch_value (hub_url u r) (http_get w (length (requested s)) (hub_url u r)) = Inr c"
    and "try_project w s f p = ((s1, f1), r1)"
  shows "requested s1 = requested s @ [hub_url u r]
         \<and> downloads_data f1 = downloads_data f @ [record_of ((u, r), c)]
         \<and> bound f1"
proof -
  from entry_nameD [OF assms(1)] have
    g: "u \<noteq> []" "r \<noteq> []" "py_get p ''username'' = Inr (JStr u)"
       "py_get p ''repository'' = Inr (JStr r)"
    by simp_all
  let ?s0 = "logging_info (''Processing '' @ u @ ''/'' @ r) s"
  obtain s2 res where gd: "get_docker_downloads w ?s0 u r = (s2, res)" by (metis prod.exhaust)
  have rq0: "requested ?s0 = requested s" by (simp add: effect_defs)
  from get_docker_downloads_result [of w ?s0 u r] gd rq0 assms(2)
  have res: "res = Inr c" by simp
  from get_docker_downloads_frame [OF gd] rq0
  have rq2: "requested s2 = requested s @ [hub_url u r]" by simp
  from assms(3) g gd res rq2 show ?thesis
    by (auto simp: try_project_def Let_def record_of_def bound_def split: sum.splits
             dest!: print_Inr)
qed

lemma valid_step:
  assumes "entry_name p = Some (u, r)"
    and "fetch_value (hub_url u r) (http_get w (length (requested s)) (hub_url u r)) = Inr c"
  shows "\<exists>s1 f1. for_projects w s f (p # rest) = for_projects w s1 f1 rest
            \<and> requested s1 = requested s @ [hub_url u r]
            \<and> downloads_data f1 = downloads_data f @ [record_of ((u, r), c)]"
proof -
  obtain s1 f1 r1 where t: "try_project w s f p = ((s1, f1), r1)"
    by (metis prod.exhaust)
  note v = try_project_valid [OF assms t]
  show ?thesis
  proof (cases r1)
    case None
    with t have "for_projects w s f (p # rest) = for_projects w s1 f1 rest" by simp
    with v show ?thesis by blast
  next
    case (Some e)
    from v have "bound f1" by simp
    from except_project_bound [OF this, of w s1 e] obtain s2 f2 where
      x: "except_project w s1 f1 e = Inr (s2, f2)"
         "requested s2 = requested s1" "downloads_data f2 = downloads_data f1"
      by blast
    from t Some x(1) have "for_projects w s f (p # rest) = for_projects w s2 f2 rest" by simp
    with v x(2,3) show ?thesis by (intro exI [of _ s2] exI [of _ f2]) simp
  qed
qed

lemma for_projects_valid:
  assumes "map entry_name entries = map Some names"
    and "length counts = length names"
    and "\<forall>i<length names.
           fetch_value (hub_url (fst (names ! i)) (snd (names ! i)))
             (http_get w (length (requested s) + i)
                (hub_url (fst (names ! i)) (snd (names ! i)))) = Inr (counts ! i)"
  shows "\<exists>s' f'. for_projects w s f entries = (s', Inr f')
           \<and> downloads_data f' = downloads_data f @ map record_of (zip names counts)"
  using assms
proof (induction entries arbitrary: names counts s f)
  case Nil
  then show ?case by simp
next
  case (Cons p ps)
  from Cons.prems(1) obtain n ns where names: "names = n # ns"
    and n: "entry_name p = Some n" and ns: "map entry_name ps = map Some ns"
    by (cases names) auto
  from Cons.prems(2) names obtain c cs where counts: "counts = c # cs"
    and cs: "length cs = length ns"
    by (cases counts) auto
  obtain u r where ur: "n = (u, r)" by (cases n)
  from Cons.prems(3) [rule_format, of 0] names counts ur
  have f0: "fetch_value (hub_url u r) (http_get w (length (requested s)) (hub_url u r)) = Inr c"
    by simp
  from valid_step [OF n [unfolded ur] f0, of f ps] obtain s1 f1 where
    st: "for_projects w s f (p # ps) = for_projects w s1 f1 ps"
        "requested s1 = requested s @ [hub_url u r]"
        "downloads_data f1 = downloads_data f @ [record_of ((u, r), c)]"
    by blast
  have rest: "\<forall>i<length ns.
           fetch_value (hub_url (fst (ns ! i)) (snd (ns ! i)))
             (http_get w (length (requested s1) + i)
                (hub_url (fst (ns ! i)) (snd (ns ! i)))) = Inr (cs ! i)"
  proof (intro allI impI)
    fix i assume "i < length ns"
    with Cons.prems(3) [rule_format, of "Suc i"] names counts st(2)
    show "fetch_value (hub_url (fst (ns ! i)) (snd (ns ! i)))
             (http_get w (length (requested s1) + i)
                (hub_url (fst (ns ! i)) (snd (ns ! i)))) = Inr (cs ! i)"
      by simp
  qed
  from Cons.IH [OF ns cs rest, of f1] obtain s' f' where
    "for_projects w s1 f1 ps = (s', Inr f')"
    "downloads_data f' = downloads_data f1 @ map record_of (zip ns cs)"
    by blast
  with st names counts ur show ?case by simp
qed

text \<open>The digits \<open>strftime_ymd\<close> produces, for one to four digits.\<close>

lemma digits_1: "n < 10 \<Longrightarrow> digits n = [''0123456789'' ! n]"
  by (subst digits.simps) (simp add: digit_def)

lemma digits_2:
  "10 \<le> n \<Longrightarrow> n < 100 \<Longrightarrow> digits n = [''0123456789'' ! (n div 10), ''0123456789'' ! (n mod 10)]"
  using digits_1 [of "n div 10"] by (subst digits.simps) (simp add: digit_def)

lemma digits_3:
  assumes "100 \<le> n" "n < 1000"
  shows "digits n = [''0123456789'' ! (n div 100), ''0123456789'' ! (n div 10 mod 10),
                     ''0123456789'' ! (n mod 10)]"
proof -
  have "n div 10 div 10 = n div 100" by (simp add: div_mult2_eq)
  with assms digits_2 [of "n div 10"] show ?thesis
    by (subst digits.simps) (simp add: digit_def)
qed

lemma digits_4:
  assumes "1000 \<le> n" "n \<le> 9999"
  shows "digits n = [''0123456789'' ! (n div 1000), ''0123456789'' ! (n div 100 mod 10),
                     ''0123456789'' ! (n div 10 mod 10), ''0123456789'' ! (n mod 10)]"
proof -
  have "n div 10 div 100 = n div 1000" "n div 10 div 10 = n div 100"
    by (simp_all add: div_mult2_eq)
  with assms digits_3 [of "n div 10"] show ?thesis
    by (subst digits.simps) (simp add: digit_def)
qed

lemma pad2_digits:
  "n < 100 \<Longrightarrow> pad2 n = [''0123456789'' ! (n div 10), ''0123456789'' ! (n mod 10)]"
  using digits_1 [of n] digits_2 [of n] by (cases "n < 10") (simp_all add: pad2_def)

lemma strftime_ymd_digits:
  assumes "1000 \<le> year d" "year d \<le> 9999" "month d \<le> 12" "day d \<le> 31"
  shows "strftime_ymd d =
     [''0123456789'' ! (year d div 1000), ''0123456789'' ! (year d div 100 mod 10),
      ''0123456789'' ! (year d div 10 mod 10), ''0123456789'' ! (year d mod 10),
      CHR ''-'',
      ''0123456789'' ! (month d div 10), ''0123456789'' ! (month d mod 10),
      CHR ''-'',
      ''0123456789'' ! (day d div 10), ''0123456789'' ! (day d mod 10)]"
proof -
  have "digits (year d) =
     [''0123456789'' ! (year d div 1000), ''0123456789'' ! (year d div 100 mod 10),
      ''0123456789'' ! (year d div 10 mod 10), ''0123456789'' ! (year d mod 10)]"
    using assms(1,2) by (rule digits_4)
  moreover have "pad2 (month d) =
     [''0123456789'' ! (month d div 10), ''0123456789'' ! (month d mod 10)]"
    using assms(3) by (intro pad2_digits) simp
  moreover have "pad2 (day d) =
     [''0123456789'' ! (day d div 10), ''0123456789'' ! (day d mod 10)]"
    using assms(4) by (intro pad2_digits) simp
  ultimately show ?thesis by (simp add: strftime_ymd_def)
qed

lemma ledger_row_record_of:
  "ledger_row w date (record_of nc) = expected_row date nc"
  by (simp add: ledger_row_def record_of_def expected_row_def)

text \<open>
  C1.  Take a configuration that is a non-empty array of \<open>N\<close> valid entries, a run in
  which the request made for each entry yields a counter, and a clock that shows a
  calendar date with a four-digit year.  Then the ledger after the run is what it held
  before (the row \<^verbatim>\<open>Date,Repository,Downloads\<close>, if the file did not exist) followed by
  exactly \<open>N\<close> new rows, in the order of the configuration.  The \<open>i\<close>-th row holds the
  date at the start of the run, written as four digits of the year, a hyphen, two digits
  of the month, a hyphen and two digits of the day; then \<^verbatim>\<open>username/repository\<close> of the
  \<open>i\<close>-th entry; then the counter fetched for it.
\<close>

theorem successful_run_rows:
  assumes "map entry_name entries = map Some names"
    and "entries \<noteq> []"
    and "length counts = length names"
    and "\<forall>i<length names.
           fetch_value (hub_url (fst (names ! i)) (snd (names ! i)))
             (http_get w (length (requested s) + i)
                (hub_url (fst (names ! i)) (snd (names ! i)))) = Inr (counts ! i)"
    and "1000 \<le> year (now_at_run w)" and "year (now_at_run w) \<le> 9999"
    and "month (now_at_run w) \<le> 12" and "day (now_at_run w) \<le> 31"
  shows "(let y = year (now_at_run w); m = month (now_at_run w); d = day (now_at_run w);
              date = [''0123456789'' ! (y div 1000), ''0123456789'' ! (y div 100 mod 10),
                      ''0123456789'' ! (y div 10 mod 10), ''0123456789'' ! (y mod 10),
                      CHR ''-'', ''0123456789'' ! (m div 10), ''0123456789'' ! (m mod 10),
                      CHR ''-'', ''0123456789'' ! (d div 10), ''0123456789'' ! (d mod 10)]
          in ledger (fst (run w s (JArr entries))) =
               Some ((case ledger s of
                        None \<Rightarrow> [[JStr ''Date'', JStr ''Repository'', JStr ''Downloads'']]
                      | Some old \<Rightarrow> old)
                     @ map (\<lambda>nc. [JStr date, JStr (fst (fst nc) @ ''/'' @ snd (fst nc)), snd nc])
                           (zip names counts)))
         \<and> length (zip names counts) = length entries"
proof -
  let ?date = "strftime_ymd (now_at_run w)"
  from for_projects_valid [OF assms(1,3,4), of frame0] obtain s' f' where
    fp: "for_projects w s frame0 entries = (s', Inr f')"
    and dd: "downloads_data f' = map record_of (zip names counts)"
    by (auto simp: frame0_def)
  have len: "length names = length entries"
    using assms(1) by (metis length_map)
  with assms(2,3) have ne: "downloads_data f' \<noteq> []"
    unfolding dd by (cases names; cases counts) auto
  from for_projects_frame [OF fp] have l: "ledger s' = ledger s" by simp
  have "ledger (fst (run w s (JArr entries))) = ledger (fst (store_and_publish w s' ?date f'))"
    using fp by (simp add: run_def effect_defs split: prod.splits)
  also have "\<dots> = Some ((case ledger s of None \<Rightarrow> [header] | Some old \<Rightarrow> old)
                 @ map (expected_row ?date) (zip names counts))"
    using ne l by (simp add: store_and_publish_ledger dd ledger_row_record_of comp_def)
  finally have rows: "ledger (fst (run w s (JArr entries))) =
           Some ((case ledger s of None \<Rightarrow> [header] | Some old \<Rightarrow> old)
                 @ map (expected_row ?date) (zip names counts))" .
  have "length (zip names counts) = length entries"
    using len assms(3) by simp
  moreover have "expected_row ?date =
      (\<lambda>nc. [JStr ?date, JStr (fst (fst nc) @ ''/'' @ snd (fst nc)), snd nc])"
    by (rule ext) (simp add: expected_row_def)
  ultimately show ?thesis
    unfolding Let_def rows strftime_ymd_digits [OF assms(5-8), symmetric]
    by (cases "ledger s") (simp_all add: header_def)
qed

theorem successful_run_rows_witness:
  "map entry_name two_entries = map Some [(''acme'', ''app''), (''acme'', ''db'')]
   \<and> now_at_run two_world = \<lparr>year = 2024, month = 3, day = 9\<rparr>
   \<and> ledger (fst (run two_world state0 (JArr two_entries))) =
       Some [[JStr ''Date'', JStr ''Repository'', JStr ''Downloads''],
             [JStr ''2024-03-09'', JStr ''acme/app'', JNum 42],
             [JStr ''2024-03-09'', JStr ''acme/db'', JNum 7]]"
proof -
  let ?names = "[(''acme'', ''app''), (''acme'', ''db'')]"
  let ?counts = "[JNum 42, JNum 7]"
  have 1: "map entry_name two_entries = map Some ?names"
    by (simp add: two_entries_def acme_entry_def)
  have 2: "two_entries \<noteq> []" by (simp add: two_entries_def)
  have 3: "length ?counts = length ?names" by simp
  have 4: "\<forall>i<length ?names.
           fetch_value (hub_url (fst (?names ! i)) (snd (?names ! i)))
             (http_get two_world (length (requested state0) + i)
                (hub_url (fst (?names ! i)) (snd (?names ! i)))) = Inr (?counts ! i)"
  proof (intro allI impI)
    fix i assume "i < length ?names"
    then have "i = 0 \<or> i = 1" by auto
    then show "fetch_value (hub_url (fst (?names ! i)) (snd (?names ! i)))
             (http_get two_world (length (requested state0) + i)
                (hub_url (fst (?names ! i)) (snd (?names ! i)))) = Inr (?counts ! i)"
      by (auto simp: two_world_def acme_world_def state0_def fetch_value_def
                     raise_for_status_def)
  qed
  have 5: "now_at_run two_world = \<lparr>year = 2024, month = 3, day = 9\<rparr>"
    by (simp add: two_world_def acme_world_def)
  have 6: "1000 \<le> year (now_at_run two_world)" "year (now_at_run two_world) \<le> 9999"
      "month (now_at_run two_world) \<le> 12" "day (now_at_run two_world) \<le> 31"
    by (simp_all add: 5)
  from successful_run_rows [OF 1 2 3 4 6] 1 5 show ?thesis
    by (simp add: state0_def Let_def)
qed

text \<open>
  C4, as the claim states it, fails for a flag that is set to the empty string: the
  fetch succeeds and the row is written, but \<^verbatim>\<open>if os.getenv('GITHUB_ACTIONS')\<close> is
  false and no command is started.
\<close>

theorem empty_flag_no_publish:
  "environ empty_flag_world ''GITHUB_ACTIONS'' = Some []
   \<and> snd (get_docker_downloads empty_flag_world state0 ''acme'' ''app'') = Inr (JNum 42)
   \<and> ledger (fst (run empty_flag_world state0 acme_projects)) =
       Some [header, [JStr ''2024-01-01'', JStr ''acme/app'', JNum 42]]
   \<and> spawned (fst (run empty_flag_world state0 acme_projects)) = []"
  by (simp add: run_eval world_defs empty_flag_world_def)

end
